theory Spec2Isabelle
  imports Main "HOL-Library.Word" "HOL-Library.AList"
begin

unbundle bit_operations_syntax

section \<open>JavaScript objects used as dictionaries\<close>

text \<open>
  The session table, the job table and the credential table of the program are plain
  object literals (\<^verbatim>\<open>const activeSessions: Record<string, OAuthSession> = {}\<close>) read and
  written with \<^verbatim>\<open>obj[key]\<close>. Such an object has its own properties, kept here as an
  association list in insertion order, and the properties every object inherits from
  \<^verbatim>\<open>Object.prototype\<close>. A read of \<^verbatim>\<open>obj[key]\<close> finds an own property first and
  an inherited one next; only when both are missing is the result \<^verbatim>\<open>undefined\<close>.
  (JavaScript lists own keys that are array indices before the others. The identifiers
  that the program generates are too long to be array indices, and the properties
  below that speak of an order compare two listings of the same keys.)

  The inherited members are those every JavaScript realm starts with. The credential
  table lives in the renderer, where nothing writes to a built-in object, and the
  functions of the job scheduler are described for a process whose built-in objects
  are as they were at the start. The session table is different: its handlers write
  to the objects they find, built-in ones included, and read those properties back
  through the prototype chain; the section on the OAuth coordinator keeps what has
  been written to built-in objects as part of its state.
\<close>

definition object_prototype_keys :: "string list" where
  "object_prototype_keys =
     [''constructor'', ''__defineGetter__'', ''__defineSetter__'', ''hasOwnProperty'',
      ''__lookupGetter__'', ''__lookupSetter__'', ''isPrototypeOf'',
      ''propertyIsEnumerable'', ''toString'', ''valueOf'', ''__proto__'',
      ''toLocaleString'']"

datatype 'a property = Own 'a | Inherited | Undefined

definition js_get :: "(string \<times> 'a) list \<Rightarrow> string \<Rightarrow> 'a property" where
  "js_get obj k =
     (case map_of obj k of
        Some v \<Rightarrow> Own v
      | None \<Rightarrow> if k \<in> set object_prototype_keys then Inherited else Undefined)"

text \<open>
  \<^verbatim>\<open>obj[key] = v\<close> with a string \<^verbatim>\<open>v\<close>: the key \<^verbatim>\<open>__proto__\<close>, when it is not an
  own property, reaches the setter of \<^verbatim>\<open>Object.prototype\<close>, which ignores a value
  that is neither an object nor null. Every other key creates or overwrites an own
  property.
\<close>

definition js_set_string :: "(string \<times> 'a) list \<Rightarrow> string \<Rightarrow> 'a \<Rightarrow> (string \<times> 'a) list" where
  "js_set_string obj k v =
     (if k = ''__proto__'' \<and> map_of obj k = None then obj else AList.update k v obj)"

text \<open>\<^verbatim>\<open>obj[key] = v\<close> with an object \<^verbatim>\<open>v\<close> and a key that is not \<^verbatim>\<open>__proto__\<close>.\<close>

definition js_set :: "(string \<times> 'a) list \<Rightarrow> string \<Rightarrow> 'a \<Rightarrow> (string \<times> 'a) list" where
  "js_set obj k v = AList.update k v obj"

text \<open>\<^verbatim>\<open>delete obj[key]\<close> removes an own property and nothing else.\<close>

definition js_delete :: "(string \<times> 'a) list \<Rightarrow> string \<Rightarrow> (string \<times> 'a) list" where
  "js_delete obj k = AList.delete k obj"

text \<open>A JavaScript string is truthy when it is not empty; \<^verbatim>\<open>undefined\<close> is falsy.\<close>

fun truthy :: "string option \<Rightarrow> bool" where
  "truthy None = False"
| "truthy (Some s) = (s \<noteq> [])"

section \<open>Bytes and hexadecimal text\<close>

type_synonym byte = "8 word"

definition hex_digit :: "nat \<Rightarrow> char" where
  "hex_digit n = ''0123456789abcdef'' ! (n mod 16)"

text \<open>\<^verbatim>\<open>b.toString(16).padStart(2, '0')\<close> for a byte.\<close>

definition byte_hex :: "byte \<Rightarrow> string" where
  "byte_hex b = [hex_digit (unat b div 16), hex_digit (unat b mod 16)]"

text \<open>\<^verbatim>\<open>Buffer.toString('hex')\<close>, and the \<^verbatim>\<open>Array.from(..).map(..).join('')\<close> of the vault.\<close>

definition to_hex :: "byte list \<Rightarrow> string" where
  "to_hex bs = concat (map byte_hex bs)"

section \<open>Text encoding (TextEncoder and TextDecoder)\<close>

text \<open>
  A JavaScript string is a sequence of 16-bit code units. \<^verbatim>\<open>new TextEncoder().encode\<close>
  first turns the string into scalar values, replacing every surrogate that is not
  part of a pair by U+FFFD, and writes each scalar value in UTF-8.
  \<^verbatim>\<open>new TextDecoder().decode\<close> runs the UTF-8 decoder of the Encoding Standard, which
  answers a malformed sequence with U+FFFD, drops a byte order mark U+FEFF at the
  start of the output (\<^verbatim>\<open>ignoreBOM\<close> is false by default), and writes the scalar
  values as code units. Text that stays within ASCII (identifiers, Base64, hexadecimal
  digits) is kept as \<^typ>\<open>string\<close>.
\<close>

type_synonym code_unit = "16 word"
type_synonym jsstring = "code_unit list"

definition is_lead :: "code_unit \<Rightarrow> bool" where
  "is_lead u \<longleftrightarrow> 0xD800 \<le> unat u \<and> unat u \<le> 0xDBFF"

definition is_trail :: "code_unit \<Rightarrow> bool" where
  "is_trail u \<longleftrightarrow> 0xDC00 \<le> unat u \<and> unat u \<le> 0xDFFF"

text \<open>The scalar values of a string: a lead surrogate followed by a trail surrogate is one
  supplementary code point; any other surrogate becomes U+FFFD.\<close>

fun scalar_values :: "jsstring \<Rightarrow> nat list" where
  "scalar_values [] = []"
| "scalar_values (u # us) =
     (if is_lead u then
        (case us of
           [] \<Rightarrow> [0xFFFD]
         | v # r \<Rightarrow>
             if is_trail v
             then (0x10000 + (unat u - 0xD800) * 0x400 + (unat v - 0xDC00)) # scalar_values r
             else 0xFFFD # scalar_values us)
      else if is_trail u then 0xFFFD # scalar_values us
      else unat u # scalar_values us)"

definition utf8_octets :: "nat \<Rightarrow> nat list" where
  "utf8_octets cp =
     (if cp < 0x80 then [cp]
      else if cp < 0x800 then [0xC0 + cp div 64, 0x80 + cp mod 64]
      else if cp < 0x10000 then
        [0xE0 + cp div 4096, 0x80 + cp div 64 mod 64, 0x80 + cp mod 64]
      else
        [0xF0 + cp div 262144, 0x80 + cp div 4096 mod 64,
         0x80 + cp div 64 mod 64, 0x80 + cp mod 64])"

definition utf8_bytes :: "nat \<Rightarrow> byte list" where
  "utf8_bytes cp = map of_nat (utf8_octets cp)"

definition TextEncoder_encode :: "jsstring \<Rightarrow> byte list" where
  "TextEncoder_encode s = concat (map utf8_bytes (scalar_values s))"

text \<open>
  The UTF-8 decoder: its state, the handler for one byte when no sequence is open
  (\<open>utf8_start\<close>), and the handler in general. A byte outside the boundaries ends the
  open sequence with U+FFFD and is then read again as the start of a sequence.
\<close>

record utf8_decoder =
  code_point :: nat
  bytes_seen :: nat
  bytes_needed :: nat
  lower_boundary :: nat
  upper_boundary :: nat

definition utf8_initial :: utf8_decoder where
  "utf8_initial =
     \<lparr>code_point = 0, bytes_seen = 0, bytes_needed = 0, lower_boundary = 0x80, upper_boundary = 0xBF\<rparr>"

definition utf8_start :: "nat \<Rightarrow> utf8_decoder \<times> nat list" where
  "utf8_start b =
     (if b \<le> 0x7F then (utf8_initial, [b])
      else if 0xC2 \<le> b \<and> b \<le> 0xDF then
        (utf8_initial\<lparr>bytes_needed := 1, code_point := b mod 32\<rparr>, [])
      else if 0xE0 \<le> b \<and> b \<le> 0xEF then
        (utf8_initial\<lparr>bytes_needed := 2, code_point := b mod 16,
           lower_boundary := (if b = 0xE0 then 0xA0 else 0x80),
           upper_boundary := (if b = 0xED then 0x9F else 0xBF)\<rparr>, [])
      else if 0xF0 \<le> b \<and> b \<le> 0xF4 then
        (utf8_initial\<lparr>bytes_needed := 3, code_point := b mod 8,
           lower_boundary := (if b = 0xF0 then 0x90 else 0x80),
           upper_boundary := (if b = 0xF4 then 0x8F else 0xBF)\<rparr>, [])
      else (utf8_initial, [0xFFFD]))"

definition utf8_handler :: "utf8_decoder \<Rightarrow> nat \<Rightarrow> utf8_decoder \<times> nat list" where
  "utf8_handler d b =
     (if bytes_needed d = 0 then utf8_start b
      else if b < lower_boundary d \<or> upper_boundary d < b then
        (fst (utf8_start b), 0xFFFD # snd (utf8_start b))
      else if bytes_seen d + 1 \<noteq> bytes_needed d then
        (d\<lparr>lower_boundary := 0x80, upper_boundary := 0xBF,
           code_point := code_point d * 64 + b mod 64, bytes_seen := bytes_seen d + 1\<rparr>, [])
      else (utf8_initial, [code_point d * 64 + b mod 64]))"

fun utf8_run :: "utf8_decoder \<Rightarrow> nat list \<Rightarrow> nat list" where
  "utf8_run d [] = (if bytes_needed d \<noteq> 0 then [0xFFFD] else [])"
| "utf8_run d (b # bs) = snd (utf8_handler d b) @ utf8_run (fst (utf8_handler d b)) bs"

definition utf8_decode :: "byte list \<Rightarrow> nat list" where
  "utf8_decode bs = utf8_run utf8_initial (map unat bs)"

fun strip_bom :: "nat list \<Rightarrow> nat list" where
  "strip_bom [] = []"
| "strip_bom (c # cs) = (if c = 0xFEFF then cs else c # cs)"

definition code_units :: "nat \<Rightarrow> jsstring" where
  "code_units cp =
     (if cp < 0x10000 then [of_nat cp]
      else [of_nat (0xD800 + (cp - 0x10000) div 0x400), of_nat (0xDC00 + (cp - 0x10000) mod 0x400)])"

definition TextDecoder_decode :: "byte list \<Rightarrow> jsstring" where
  "TextDecoder_decode bs = concat (map code_units (strip_bom (utf8_decode bs)))"

text \<open>A string is well formed when every surrogate in it is part of a pair.\<close>

fun well_formed :: "jsstring \<Rightarrow> bool" where
  "well_formed [] = True"
| "well_formed (u # us) =
     (if is_lead u then (case us of [] \<Rightarrow> False | v # r \<Rightarrow> is_trail v \<and> well_formed r)
      else \<not> is_trail u \<and> well_formed us)"

definition valid_scalar :: "nat \<Rightarrow> bool" where
  "valid_scalar cp \<longleftrightarrow> cp < 0x110000 \<and> \<not> (0xD800 \<le> cp \<and> cp \<le> 0xDFFF)"

definition starts_with_bom :: "jsstring \<Rightarrow> bool" where
  "starts_with_bom s = (case s of [] \<Rightarrow> False | u # us \<Rightarrow> u = 0xFEFF)"

section \<open>Base64 (btoa and atob)\<close>

text \<open>
  \<^verbatim>\<open>arrayBufferToBase64\<close> builds a string with one character per byte and passes it
  to \<^verbatim>\<open>btoa\<close>; \<^verbatim>\<open>base64ToArrayBuffer\<close> passes its argument to \<^verbatim>\<open>atob\<close> and reads
  the bytes back. \<^verbatim>\<open>atob\<close> removes ASCII whitespace, removes one or two padding
  characters when the length is a multiple of four, and throws when the length is then
  1 modulo 4 or a character is outside the alphabet.
\<close>

definition b64_alphabet :: string where
  "b64_alphabet = ''ABCDEFGHIJKLMNOPQRSTUVWXYZabcdefghijklmnopqrstuvwxyz0123456789+/''"

definition b64_char :: "nat \<Rightarrow> char" where
  "b64_char n = b64_alphabet ! n"

fun index_of :: "'a \<Rightarrow> 'a list \<Rightarrow> nat option" where
  "index_of c [] = None"
| "index_of c (x # xs) = (if c = x then Some 0 else map_option Suc (index_of c xs))"

definition b64_index :: "char \<Rightarrow> nat option" where
  "b64_index c = index_of c b64_alphabet"

fun sextets :: "byte list \<Rightarrow> nat list" where
  "sextets (a # b # c # r) =
     [unat a div 4, (unat a mod 4) * 16 + unat b div 16,
      (unat b mod 16) * 4 + unat c div 64, unat c mod 64] @ sextets r"
| "sextets [a, b] = [unat a div 4, (unat a mod 4) * 16 + unat b div 16, (unat b mod 16) * 4]"
| "sextets [a] = [unat a div 4, (unat a mod 4) * 16]"
| "sextets [] = []"

definition padding :: "nat \<Rightarrow> string" where
  "padding n = (if n mod 3 = 1 then ''=='' else if n mod 3 = 2 then ''='' else [])"

definition btoa :: "byte list \<Rightarrow> string" where
  "btoa bs = map b64_char (sextets bs) @ padding (length bs)"

definition ascii_whitespace :: "char \<Rightarrow> bool" where
  "ascii_whitespace c \<longleftrightarrow> c \<in> set [CHR 0x09, CHR 0x0A, CHR 0x0C, CHR 0x0D, CHR 0x20]"

definition strip_padding :: "string \<Rightarrow> string" where
  "strip_padding d =
     (if length d mod 4 = 0 \<and> d \<noteq> [] \<and> last d = CHR ''=''
      then (if butlast d \<noteq> [] \<and> last (butlast d) = CHR ''='' then butlast (butlast d)
            else butlast d)
      else d)"

fun unsextets :: "nat list \<Rightarrow> byte list" where
  "unsextets (w # x # y # z # r) =
     [of_nat (w * 4 + x div 16), of_nat ((x mod 16) * 16 + y div 4), of_nat ((y mod 4) * 64 + z)]
       @ unsextets r"
| "unsextets [w, x, y] = [of_nat (w * 4 + x div 16), of_nat ((x mod 16) * 16 + y div 4)]"
| "unsextets [w, x] = [of_nat (w * 4 + x div 16)]"
| "unsextets _ = []"

definition atob :: "string \<Rightarrow> byte list option" where
  "atob s =
     (let d = strip_padding (filter (\<lambda>c. \<not> ascii_whitespace c) s) in
      if length d mod 4 = 1 then None
      else if list_ex (\<lambda>c. b64_index c = None) d then None
      else Some (unsextets (map (\<lambda>c. the (b64_index c)) d)))"



definition arrayBufferToBase64 :: "byte list \<Rightarrow> string" where
  "arrayBufferToBase64 buffer = btoa buffer"

definition base64ToArrayBuffer :: "string \<Rightarrow> byte list option" where
  "base64ToArrayBuffer base64 = atob base64"

section \<open>The platform\<close>

text \<open>
  The program calls into the browser for AES-GCM (\<^verbatim>\<open>crypto.subtle.encrypt\<close> and
  \<^verbatim>\<open>decrypt\<close>), for PBKDF2 (\<^verbatim>\<open>importKey\<close> and \<^verbatim>\<open>deriveKey\<close>) and for JSON.
  These are parameters of the model; \<open>None\<close> stands for a rejected promise or an
  exception. Random bytes (\<^verbatim>\<open>crypto.getRandomValues\<close>) are an argument of the function
  that draws them; the generator they come from is described with \<^verbatim>\<open>encryptValue\<close>.
  Values that pass through JSON are \<open>jsvalue\<close>s; their numbers are integers, which is
  what the program puts there (timestamps).

  The Number value of a text (\<^verbatim>\<open>StringToNumber\<close>, with its number syntax and its
  rounding) is the platform's as well. The program meets it in one place, where only
  the range of the number matters; \<open>StringToNumber\<close> gives that range.
\<close>

datatype number_range =
    NotANumber
  | AtMostMinusTwo
  | AboveMinusTwoUpToZero
  | Positive

datatype jsvalue =
    JUndefined
  | JNull
  | JBool bool
  | JNumber int
  | JString string
  | JArray "jsvalue list"
  | JObject "(string \<times> jsvalue) list"

record 'k platform =
  subtle_encrypt :: "'k \<Rightarrow> byte list \<Rightarrow> byte list \<Rightarrow> byte list option"
  subtle_decrypt :: "'k \<Rightarrow> byte list \<Rightarrow> byte list \<Rightarrow> byte list option"
  subtle_deriveKey :: "byte list \<Rightarrow> byte list \<Rightarrow> 'k option"
  JSON_stringify :: "jsvalue \<Rightarrow> jsstring option"
  JSON_parse :: "jsstring \<Rightarrow> jsvalue option"
  StringToNumber :: "string \<Rightarrow> number_range"

section \<open>The crypto engine (frontend/src/utils/encryption.ts)\<close>

datatype crypto_error = KeyDerivationFailed | EncryptionFailed | DecryptionFailed

definition SALT_LENGTH :: nat where
  "SALT_LENGTH = 32"

definition IV_LENGTH :: nat where
  "IV_LENGTH = 12"


text \<open>\<^verbatim>\<open>encryptValue(value, key)\<close>; \<open>iv\<close> is the drawn initialisation vector.\<close>

definition encryptValue :: "'k platform \<Rightarrow> jsstring \<Rightarrow> 'k \<Rightarrow> byte list \<Rightarrow> crypto_error + string" where
  "encryptValue pl v key iv =
     (case subtle_encrypt pl key iv (TextEncoder_encode v) of
        None \<Rightarrow> Inl EncryptionFailed
      | Some encryptedData \<Rightarrow> Inr (arrayBufferToBase64 (iv @ encryptedData)))"

text \<open>
  The random generator of the realm is the sequence of bytes it is going to deliver.
  \<^verbatim>\<open>crypto.getRandomValues(new Uint8Array(n))\<close> returns the next \<open>n\<close> of them
  and leaves the generator that delivers the rest.
\<close>

type_synonym generator = "nat \<Rightarrow> byte"

definition shift :: "nat \<Rightarrow> generator \<Rightarrow> generator" where
  "shift n g = (\<lambda>i. g (n + i))"

definition getRandomValues :: "nat \<Rightarrow> generator \<Rightarrow> byte list \<times> generator" where
  "getRandomValues n g = (map g [0..<n], shift n g)"

text \<open>
  A whole call of \<^verbatim>\<open>encryptValue\<close> in a realm whose generator is \<open>g\<close>: the first
  statement draws the vector, the rest is the function above; the call returns its
  result and the generator it leaves.
\<close>

definition encryptValue_call ::
  "'k platform \<Rightarrow> jsstring \<Rightarrow> 'k \<Rightarrow> generator \<Rightarrow> (crypto_error + string) \<times> generator" where
  "encryptValue_call pl v key g =
     (let (iv, g') = getRandomValues IV_LENGTH g in (encryptValue pl v key iv, g'))"

text \<open>\<^verbatim>\<open>decryptValue(encryptedValue, key)\<close>.\<close>

definition decryptValue :: "'k platform \<Rightarrow> string \<Rightarrow> 'k \<Rightarrow> crypto_error + jsstring" where
  "decryptValue pl encryptedValue key =
     (case base64ToArrayBuffer encryptedValue of
        None \<Rightarrow> Inl DecryptionFailed
      | Some data \<Rightarrow>
          (case subtle_decrypt pl key (take IV_LENGTH data) (drop IV_LENGTH data) of
             None \<Rightarrow> Inl DecryptionFailed
           | Some decrypted \<Rightarrow> Inr (TextDecoder_decode decrypted)))"

text \<open>
  Facts about AES-GCM that the properties below rely on. Correctness: what
  \<^verbatim>\<open>encrypt\<close> returns, \<^verbatim>\<open>decrypt\<close> under the same key and initialisation
  vector turns back into the data. \<^verbatim>\<open>decrypt\<close> rejects a ciphertext shorter than
  the 16-byte authentication tag.
\<close>

definition aead_correct :: "'k platform \<Rightarrow> bool" where
  "aead_correct pl \<longleftrightarrow>
     (\<forall>k iv d c. subtle_encrypt pl k iv d = Some c \<longrightarrow> subtle_decrypt pl k iv c = Some d)"

definition tag_checked :: "'k platform \<Rightarrow> bool" where
  "tag_checked pl \<longleftrightarrow> (\<forall>k iv c. length c < 16 \<longrightarrow> subtle_decrypt pl k iv c = None)"



section \<open>JavaScript values\<close>

text \<open>
  \<^verbatim>\<open>String(v)\<close>, which is also how a value becomes a property key and how
  \<^verbatim>\<open>atob\<close> reads its argument. An object that JSON has parsed has no callable
  \<^verbatim>\<open>toString\<close> of its own: when it has a property of that name the conversion
  throws (\<open>None\<close>), otherwise the inherited one answers \<^verbatim>\<open>[object Object]\<close>. An
  array joins the texts of its elements.
\<close>

function decimal :: "nat \<Rightarrow> string" where
  "decimal n =
     (if n < 10 then [''0123456789'' ! n]
      else decimal (n div 10) @ [''0123456789'' ! (n mod 10)])"
  by pat_completeness auto
termination
  by (relation "measure id") auto

fun join_comma :: "string list \<Rightarrow> string" where
  "join_comma [] = []"
| "join_comma [s] = s"
| "join_comma (s # t # r) = s @ '','' @ join_comma (t # r)"

fun js_to_string :: "jsvalue \<Rightarrow> string option" where
  "js_to_string JUndefined = Some ''undefined''"
| "js_to_string JNull = Some ''null''"
| "js_to_string (JBool b) = Some (if b then ''true'' else ''false'')"
| "js_to_string (JNumber n) =
     Some (if n < 0 then ''-'' @ decimal (nat (- n)) else decimal (nat n))"
| "js_to_string (JString s) = Some s"
| "js_to_string (JArray vs) =
     map_option join_comma
       (those (map (\<lambda>v. if v = JUndefined \<or> v = JNull then Some [] else js_to_string v) vs))"
| "js_to_string (JObject kvs) =
     (if map_of kvs ''toString'' = None then Some ''[object Object]'' else None)"

fun js_truthy :: "jsvalue \<Rightarrow> bool" where
  "js_truthy JUndefined = False"
| "js_truthy JNull = False"
| "js_truthy (JBool b) = b"
| "js_truthy (JNumber n) = (n \<noteq> 0)"
| "js_truthy (JString s) = (s \<noteq> [])"
| "js_truthy (JArray vs) = True"
| "js_truthy (JObject kvs) = True"

text \<open>
  \<^verbatim>\<open>v.name\<close> for the names the program reads (\<^verbatim>\<open>id\<close>, \<^verbatim>\<open>salt\<close>,
  \<^verbatim>\<open>encryptedData\<close>, \<^verbatim>\<open>credentials\<close>), none of which a prototype defines: a
  \<^verbatim>\<open>TypeError\<close> on \<^verbatim>\<open>null\<close> and \<^verbatim>\<open>undefined\<close>, the own property of an
  object, and \<^verbatim>\<open>undefined\<close> otherwise.
\<close>

fun js_member :: "jsvalue \<Rightarrow> string \<Rightarrow> jsvalue option" where
  "js_member JUndefined name = None"
| "js_member JNull name = None"
| "js_member (JObject kvs) name = Some (case map_of kvs name of None \<Rightarrow> JUndefined | Some v \<Rightarrow> v)"
| "js_member v name = Some JUndefined"


section \<open>The credential vault (frontend/src/utils/credentialVault.ts)\<close>

datatype credential_type = apiKey | oauth

record credential =
  cred_id :: string
  cred_serviceId :: string
  cred_name :: string
  cred_value :: string
  cred_type :: credential_type
  cred_expiresAt :: "int option"
  cred_refreshToken :: "string option"
  cred_lastVerified :: "int option"
  cred_metadata :: "(string \<times> jsvalue) list option"

text \<open>A \<^verbatim>\<open>Credential\<close> as the object the vault receives; absent optional fields are left out.\<close>

definition optional_field :: "string \<Rightarrow> ('a \<Rightarrow> jsvalue) \<Rightarrow> 'a option \<Rightarrow> (string \<times> jsvalue) list" where
  "optional_field name f x = (case x of None \<Rightarrow> [] | Some y \<Rightarrow> [(name, f y)])"

definition credential_object :: "credential \<Rightarrow> jsvalue" where
  "credential_object c =
     JObject
       ([(''id'', JString (cred_id c)), (''serviceId'', JString (cred_serviceId c)),
         (''name'', JString (cred_name c)), (''value'', JString (cred_value c)),
         (''type'', JString (case cred_type c of apiKey \<Rightarrow> ''apiKey'' | oauth \<Rightarrow> ''oauth''))]
        @ optional_field ''expiresAt'' JNumber (cred_expiresAt c)
        @ optional_field ''refreshToken'' JString (cred_refreshToken c)
        @ optional_field ''lastVerified'' JNumber (cred_lastVerified c)
        @ optional_field ''metadata'' JObject (cred_metadata c))"

record vault_data =
  version :: string
  credentials :: "(string \<times> string) list"
  lastUpdated :: int
  salt :: "string option"

record 'k credential_vault =
  encryptionKey :: "'k option"
  initialized :: bool
  vaultData :: "vault_data option"

datatype vault_error = VaultNotInitialized | ExportFailed

text \<open>
  Each method throws when the vault is not initialized and otherwise runs its
  \<^verbatim>\<open>try\<close> block, whose \<^verbatim>\<open>catch\<close> turns every exception into the failure value.
  \<open>now\<close> is the reading of \<^verbatim>\<open>Date.now()\<close> in \<^verbatim>\<open>saveVaultData\<close>; the write to
  \<^verbatim>\<open>localStorage\<close> that follows changes nothing the methods read. The four
  methods that follow are given for the local backend (\<^verbatim>\<open>IS_ELECTRON\<close> false),
  which is also where the loop of \<^verbatim>\<open>importVault\<close> calls \<^verbatim>\<open>saveCredential\<close>;
  \<^verbatim>\<open>exportVault\<close> and \<^verbatim>\<open>importVault\<close> further down have both branches.
\<close>

definition saveCredential_try ::
  "'k platform \<Rightarrow> int \<Rightarrow> byte list \<Rightarrow> jsvalue \<Rightarrow> 'k credential_vault \<Rightarrow> bool \<times> 'k credential_vault" where
  "saveCredential_try pl now iv credential V =
     (case (encryptionKey V, vaultData V) of
        (Some key, Some d) \<Rightarrow>
          (case JSON_stringify pl credential of
             None \<Rightarrow> (False, V)
           | Some text \<Rightarrow>
               (case encryptValue pl text key iv of
                  Inl e \<Rightarrow> (False, V)
                | Inr encryptedValue \<Rightarrow>
                    (case js_member credential ''id'' of
                       None \<Rightarrow> (False, V)
                     | Some i \<Rightarrow>
                         (case js_to_string i of
                            None \<Rightarrow> (False, V)
                          | Some k \<Rightarrow>
                              (True,
                               V\<lparr>vaultData :=
                                   Some (d\<lparr>credentials :=
                                             js_set_string (credentials d) k encryptedValue,
                                           lastUpdated := now\<rparr>)\<rparr>)))))
      | _ \<Rightarrow> (False, V))"

definition saveCredential ::
  "'k platform \<Rightarrow> int \<Rightarrow> byte list \<Rightarrow> jsvalue \<Rightarrow> 'k credential_vault
     \<Rightarrow> vault_error + (bool \<times> 'k credential_vault)" where
  "saveCredential pl now iv credential V =
     (if \<not> initialized V then Inl VaultNotInitialized
      else Inr (saveCredential_try pl now iv credential V))"

text \<open>
  \<^verbatim>\<open>getCredential(id)\<close>; \<open>JNull\<close> is the \<^verbatim>\<open>null\<close> of the source. An inherited
  member is a truthy object or function; \<^verbatim>\<open>atob\<close> turns it into text that is not
  Base64, so the decryption throws.
\<close>

definition getCredential_try :: "'k platform \<Rightarrow> string \<Rightarrow> 'k credential_vault \<Rightarrow> jsvalue" where
  "getCredential_try pl i V =
     (case (encryptionKey V, vaultData V) of
        (Some key, Some d) \<Rightarrow>
          (case js_get (credentials d) i of
             Undefined \<Rightarrow> JNull
           | Inherited \<Rightarrow> JNull
           | Own encryptedValue \<Rightarrow>
               if encryptedValue = [] then JNull
               else
                 (case decryptValue pl encryptedValue key of
                    Inl e \<Rightarrow> JNull
                  | Inr decryptedValue \<Rightarrow>
                      (case JSON_parse pl decryptedValue of None \<Rightarrow> JNull | Some v \<Rightarrow> v)))
      | _ \<Rightarrow> JNull)"

definition getCredential :: "'k platform \<Rightarrow> string \<Rightarrow> 'k credential_vault \<Rightarrow> vault_error + jsvalue" where
  "getCredential pl i V =
     (if \<not> initialized V then Inl VaultNotInitialized else Inr (getCredential_try pl i V))"

text \<open>
  \<^verbatim>\<open>getAllCredentials()\<close>: the \<^verbatim>\<open>for .. in\<close> loop visits the own keys of the
  table, calls \<^verbatim>\<open>getCredential\<close> on each and keeps the truthy results.
\<close>

definition getAllCredentials :: "'k platform \<Rightarrow> 'k credential_vault \<Rightarrow> vault_error + jsvalue list" where
  "getAllCredentials pl V =
     (if \<not> initialized V then Inl VaultNotInitialized
      else Inr
        (case (encryptionKey V, vaultData V) of
           (Some key, Some d) \<Rightarrow>
             filter js_truthy (map (\<lambda>i. getCredential_try pl i V) (map fst (credentials d)))
         | _ \<Rightarrow> []))"

definition deleteCredential ::
  "int \<Rightarrow> string \<Rightarrow> 'k credential_vault \<Rightarrow> vault_error + (bool \<times> 'k credential_vault)" where
  "deleteCredential now i V =
     (if \<not> initialized V then Inl VaultNotInitialized
      else Inr
        (case vaultData V of
           None \<Rightarrow> (False, V)
         | Some d \<Rightarrow>
             if js_get (credentials d) i = Undefined \<or> js_get (credentials d) i = Own []
             then (False, V)
             else
               (True,
                V\<lparr>vaultData :=
                    Some (d\<lparr>credentials := js_delete (credentials d) i, lastUpdated := now\<rparr>)\<rparr>)))"












section \<open>The Electron backend (backend/preload.ts and the credential handlers of the main process)\<close>








section \<open>Export and import of the vault, both backends\<close>




section \<open>Conditions used in the properties of the vault\<close>

text \<open>
  A vault is ready after a successful \<^verbatim>\<open>initialize\<close> outside Electron: the flag is
  set, the key is there and the data is loaded.
\<close>

definition ready :: "'k credential_vault \<Rightarrow> bool" where
  "ready V \<longleftrightarrow> initialized V \<and> encryptionKey V \<noteq> None \<and> vaultData V \<noteq> None"

text \<open>The own keys of the credential table, in the order of the \<^verbatim>\<open>for .. in\<close> loop.\<close>

definition vault_keys :: "'k credential_vault \<Rightarrow> string list" where
  "vault_keys V = (case vaultData V of None \<Rightarrow> [] | Some D \<Rightarrow> map fst (credentials D))"

text \<open>
  \<^verbatim>\<open>JSON.stringify\<close> gives a text for the value, the text is well formed and does
  not begin with U+FEFF, and \<^verbatim>\<open>JSON.parse\<close> of the text gives the value back.
\<close>

definition json_faithful :: "'k platform \<Rightarrow> jsvalue \<Rightarrow> bool" where
  "json_faithful pl v \<longleftrightarrow>
     (case JSON_stringify pl v of
        None \<Rightarrow> False
      | Some t \<Rightarrow> well_formed t \<and> \<not> starts_with_bom t \<and> JSON_parse pl t = Some v)"

text \<open>The key under which \<^verbatim>\<open>saveCredential\<close> stores a value: \<^verbatim>\<open>String(credential.id)\<close>.\<close>

definition key_of :: "jsvalue \<Rightarrow> string" where
  "key_of c =
     (case js_member c ''id'' of
        None \<Rightarrow> []
      | Some i \<Rightarrow> (case js_to_string i of None \<Rightarrow> [] | Some k \<Rightarrow> k))"

text \<open>The key exists (no exception on the way to it) and is not \<^verbatim>\<open>__proto__\<close>.\<close>

definition storable :: "jsvalue \<Rightarrow> bool" where
  "storable c \<longleftrightarrow>
     (case js_member c ''id'' of
        None \<Rightarrow> False
      | Some i \<Rightarrow> js_to_string i \<noteq> None \<and> key_of c \<noteq> ''__proto__'')"

text \<open>\<^verbatim>\<open>crypto.subtle.encrypt\<close> does not reject.\<close>

definition encrypt_total :: "'k platform \<Rightarrow> bool" where
  "encrypt_total pl \<longleftrightarrow> (\<forall>k iv d. subtle_encrypt pl k iv d \<noteq> None)"

section \<open>A stand-in platform for examples\<close>

text \<open>
  To run the model on examples the platform is replaced by simple functions: a cipher
  that adds the key byte to each byte and appends sixteen copies of the key as the
  tag, a key derivation that sums the bytes of password and salt, a JSON that knows
  the texts of the values listed in a table, and a reading of numbers that knows the
  empty text and \<^verbatim>\<open>0\<close>. The stand-in for the keychain is a table from service and
  account to password that takes non-empty strings only.
\<close>

definition demo_encrypt :: "byte \<Rightarrow> byte list \<Rightarrow> byte list \<Rightarrow> byte list option" where
  "demo_encrypt k iv d = Some (map (\<lambda>b. b + k) d @ replicate 16 k)"

definition demo_decrypt :: "byte \<Rightarrow> byte list \<Rightarrow> byte list \<Rightarrow> byte list option" where
  "demo_decrypt k iv c =
     (if 16 \<le> length c \<and> drop (length c - 16) c = replicate 16 k
      then Some (map (\<lambda>b. b - k) (take (length c - 16) c))
      else None)"

definition js_text :: "string \<Rightarrow> jsstring" where
  "js_text s = map (\<lambda>c. of_nat (of_char c)) s"

definition demo_platform :: "(jsvalue \<times> string) list \<Rightarrow> byte platform" where
  "demo_platform tbl =
     \<lparr>subtle_encrypt = demo_encrypt,
      subtle_decrypt = demo_decrypt,
      subtle_deriveKey = (\<lambda>pw s. Some (sum_list pw + sum_list s)),
      JSON_stringify = (\<lambda>v. map_option js_text (map_of tbl v)),
      JSON_parse = (\<lambda>t. map_of (map (\<lambda>(v, s). (js_text s, v)) tbl) t),
      StringToNumber = (\<lambda>t. if t = [] \<or> t = ''0'' then AboveMinusTwoUpToZero else NotANumber)\<rparr>"






section \<open>The OAuth coordinator (backend/ipc/oauthServer.ts)\<close>

record oauth_result =
  code :: "string option"
  accessToken :: "string option"
  refreshToken :: "string option"
  error :: "string option"

record oauth_session =
  sessionId :: string
  redirectUri :: string
  result :: "oauth_result option"
  completed :: bool
  createdAt :: int
  expiresAt :: int
  clientId :: string
  scopes :: "string list"

type_synonym sessions = "(string \<times> oauth_session) list"

definition SESSION_TIMEOUT :: int where
  "SESSION_TIMEOUT = 15 * 60 * 1000"

definition MAX_SESSIONS :: nat where
  "MAX_SESSIONS = 100"

text \<open>
  The handlers reach a session with \<^verbatim>\<open>activeSessions[sessionId]\<close> and then read
  and write its properties. The table is a plain object: for a key that is not its own
  the read goes on to \<^verbatim>\<open>Object.prototype\<close> and returns a built-in object, which is
  \<^verbatim>\<open>Object.prototype\<close> itself for \<^verbatim>\<open>__proto__\<close> and an inherited function
  for \<^verbatim>\<open>constructor\<close>, \<^verbatim>\<open>toString\<close> and the like. The callback handler writes
  \<^verbatim>\<open>result\<close> and \<^verbatim>\<open>completed\<close> to whatever it got. These properties stay on
  the built-in object. Those written to \<^verbatim>\<open>Object.prototype\<close> are inherited by every
  object: a session with no \<^verbatim>\<open>result\<close> of its own shows that one, and the table
  gains the members \<^verbatim>\<open>result\<close> and \<^verbatim>\<open>completed\<close>.

  The state of the coordinator is therefore the table together with the properties
  that the handlers have written to built-in objects. No other property of a built-in
  object is ever written by the program, so \<^verbatim>\<open>expiresAt\<close>, \<^verbatim>\<open>code\<close> and
  \<^verbatim>\<open>error\<close> are never inherited.
\<close>

record written =
  w_result :: "oauth_result option"
  w_completed :: bool

definition nothing_written :: written where
  "nothing_written = \<lparr>w_result = None, w_completed = False\<rparr>"

text \<open>
  The own properties \<^verbatim>\<open>result\<close> and \<^verbatim>\<open>completed\<close> of \<^verbatim>\<open>Object.prototype\<close>, of
  the inherited functions (by name), and of the object that is the value of
  \<^verbatim>\<open>Object.prototype.result\<close>.
\<close>

record builtins =
  object_prototype :: written
  inherited_functions :: "(string \<times> written) list"
  prototype_result :: written

definition fresh_builtins :: builtins where
  "fresh_builtins =
     \<lparr>object_prototype = nothing_written, inherited_functions = [],
      prototype_result = nothing_written\<rparr>"

record oauth_state =
  activeSessions :: sessions
  builtins :: builtins

text \<open>What \<^verbatim>\<open>activeSessions[sessionId]\<close> evaluates to.\<close>

datatype target =
    Session oauth_session
  | ObjectPrototype
  | InheritedFunction string
  | PrototypeResult
  | PrototypeCompleted
  | Missing

definition lookup :: "oauth_state \<Rightarrow> string \<Rightarrow> target" where
  "lookup st k =
     (case map_of (activeSessions st) k of
        Some s \<Rightarrow> Session s
      | None \<Rightarrow>
          if k = ''__proto__'' then ObjectPrototype
          else if k \<in> set object_prototype_keys then InheritedFunction k
          else if k = ''result'' \<and> w_result (object_prototype (builtins st)) \<noteq> None
            then PrototypeResult
          else if k = ''completed'' \<and> w_completed (object_prototype (builtins st))
            then PrototypeCompleted
          else Missing)"

definition function_props :: "builtins \<Rightarrow> string \<Rightarrow> written" where
  "function_props B f =
     (case map_of (inherited_functions B) f of None \<Rightarrow> nothing_written | Some w \<Rightarrow> w)"

text \<open>
  The own properties of a built-in object; \<^verbatim>\<open>true\<close>, the value of
  \<^verbatim>\<open>Object.prototype.completed\<close>, has none.
\<close>

definition own_props :: "builtins \<Rightarrow> target \<Rightarrow> written" where
  "own_props B X =
     (case X of
        ObjectPrototype \<Rightarrow> object_prototype B
      | InheritedFunction f \<Rightarrow> function_props B f
      | PrototypeResult \<Rightarrow> prototype_result B
      | _ \<Rightarrow> nothing_written)"

text \<open>
  Reading \<^verbatim>\<open>completed\<close> and \<^verbatim>\<open>result\<close>: the own property first, then the one of
  \<^verbatim>\<open>Object.prototype\<close>. A session always has \<^verbatim>\<open>completed\<close> of its own, and has
  \<^verbatim>\<open>result\<close> of its own once a callback has assigned it.
\<close>

definition read_completed :: "builtins \<Rightarrow> target \<Rightarrow> bool" where
  "read_completed B X =
     (case X of
        Session s \<Rightarrow> completed s
      | _ \<Rightarrow> w_completed (own_props B X) \<or> w_completed (object_prototype B))"

definition read_result :: "builtins \<Rightarrow> target \<Rightarrow> oauth_result option" where
  "read_result B X =
     (case (case X of Session s \<Rightarrow> result s | _ \<Rightarrow> w_result (own_props B X)) of
        Some r \<Rightarrow> Some r
      | None \<Rightarrow> w_result (object_prototype B))"

text \<open>The query of a callback request; each parameter is a string or absent.\<close>

record callback_query =
  q_state :: "string option"
  q_code :: "string option"
  q_error :: "string option"

datatype callback_response =
    InvalidCallback400
  | SessionExpired400
  | AuthorizationComplete
  | AuthorizationFailed
  | CallbackError500

definition error_result :: "string \<Rightarrow> oauth_result" where
  "error_result e = \<lparr>code = None, accessToken = None, refreshToken = None, error = Some e\<rparr>"

definition code_result :: "string \<Rightarrow> oauth_result" where
  "code_result c = \<lparr>code = Some c, accessToken = None, refreshToken = None, error = None\<rparr>"

text \<open>
  The \<^verbatim>\<open>if (error) .. else if (code) ..\<close> of the handler, on the own \<^verbatim>\<open>result\<close>
  held so far, and the two assignments together.
\<close>

definition record_result :: "callback_query \<Rightarrow> oauth_result option \<Rightarrow> oauth_result option" where
  "record_result q r =
     (if truthy (q_error q) then Some (error_result (the (q_error q)))
      else if truthy (q_code q) then Some (code_result (the (q_code q)))
      else r)"

definition write_props :: "callback_query \<Rightarrow> written \<Rightarrow> written" where
  "write_props q w = \<lparr>w_result = record_result q (w_result w), w_completed = True\<rparr>"

text \<open>
  The two assignments on a built-in object. A new value of
  \<^verbatim>\<open>Object.prototype.result\<close> is a new object, with no \<^verbatim>\<open>result\<close> or
  \<^verbatim>\<open>completed\<close> of its own.
\<close>

definition write_builtin :: "callback_query \<Rightarrow> target \<Rightarrow> builtins \<Rightarrow> builtins" where
  "write_builtin q X B =
     (case X of
        ObjectPrototype \<Rightarrow>
          B\<lparr>object_prototype := write_props q (object_prototype B),
            prototype_result :=
              (if truthy (q_error q) \<or> truthy (q_code q) then nothing_written
               else prototype_result B)\<rparr>
      | InheritedFunction f \<Rightarrow>
          B\<lparr>inherited_functions :=
              AList.update f (write_props q (function_props B f)) (inherited_functions B)\<rparr>
      | PrototypeResult \<Rightarrow> B\<lparr>prototype_result := write_props q (prototype_result B)\<rparr>
      | _ \<Rightarrow> B)"

definition success_page :: "callback_query \<Rightarrow> callback_response" where
  "success_page q = (if truthy (q_error q) then AuthorizationFailed else AuthorizationComplete)"

text \<open>
  \<^verbatim>\<open>app.get('/oauth/callback', ..)\<close> at time \<open>now\<close>. For a built-in object
  \<^verbatim>\<open>session.expiresAt\<close> is \<^verbatim>\<open>undefined\<close> and the comparison with
  \<^verbatim>\<open>Date.now()\<close> is false. The file is a module and so runs in strict mode: an
  assignment to a property of \<^verbatim>\<open>true\<close> throws, and the \<^verbatim>\<open>catch\<close> answers 500.
\<close>

definition oauth_callback ::
  "int \<Rightarrow> callback_query \<Rightarrow> oauth_state \<Rightarrow> callback_response \<times> oauth_state" where
  "oauth_callback now q st =
     (if \<not> truthy (q_state q) then (InvalidCallback400, st)
      else
        let sid = the (q_state q) in
        case lookup st sid of
          Missing \<Rightarrow> (InvalidCallback400, st)
        | Session s \<Rightarrow>
            if now > expiresAt s then
              (SessionExpired400, st\<lparr>activeSessions := js_delete (activeSessions st) sid\<rparr>)
            else
              (success_page q,
               st\<lparr>activeSessions :=
                    js_set (activeSessions st) sid
                      (s\<lparr>result := record_result q (result s), completed := True\<rparr>)\<rparr>)
        | PrototypeCompleted \<Rightarrow> (CallbackError500, st)
        | X \<Rightarrow> (success_page q, st\<lparr>builtins := write_builtin q X (builtins st)\<rparr>))"

text \<open>\<^verbatim>\<open>cleanupExpiredSessions\<close> at time \<open>now\<close>.\<close>

definition cleanupExpiredSessions :: "int \<Rightarrow> sessions \<Rightarrow> sessions" where
  "cleanupExpiredSessions now S = filter (\<lambda>(sid, s). \<not> now > expiresAt s) S"

datatype poll_response =
    SessionNotFound
  | SessionHasExpired
  | NotCompleted
  | FailedWith string
  | CompletedWith "string option"

text \<open>
  \<^verbatim>\<open>ipcMain.handle('check-oauth-result', ..)\<close> at time \<open>now\<close>. A built-in object
  never counts as expired, and \<^verbatim>\<open>delete activeSessions[sessionId]\<close> removes an own
  property only. \<^verbatim>\<open>session.completed\<close> and \<^verbatim>\<open>session.result\<close> are read
  through the prototype chain. For a completed session the answer is built from
  \<^verbatim>\<open>result?.error\<close> and \<^verbatim>\<open>result?.code\<close>.
\<close>

definition completed_response :: "oauth_result option \<Rightarrow> poll_response" where
  "completed_response r =
     (case r of
        None \<Rightarrow> CompletedWith None
      | Some x \<Rightarrow> if truthy (error x) then FailedWith (the (error x)) else CompletedWith (code x))"

definition check_oauth_result :: "int \<Rightarrow> string \<Rightarrow> oauth_state \<Rightarrow> poll_response \<times> oauth_state" where
  "check_oauth_result now sid st =
     (case lookup st sid of
        Missing \<Rightarrow> (SessionNotFound, st)
      | Session s \<Rightarrow>
          if now > expiresAt s then
            (SessionHasExpired, st\<lparr>activeSessions := js_delete (activeSessions st) sid\<rparr>)
          else if \<not> completed s then (NotCompleted, st)
          else
            (completed_response (read_result (builtins st) (Session s)),
             st\<lparr>activeSessions := js_delete (activeSessions st) sid\<rparr>)
      | X \<Rightarrow>
          if \<not> read_completed (builtins st) X then (NotCompleted, st)
          else (completed_response (read_result (builtins st) X), st))"

text \<open>
  The part of \<^verbatim>\<open>ipcMain.handle('start-oauth-flow', ..)\<close> that touches the table:
  the ceiling with its sweep, the identifier
  \<^verbatim>\<open>crypto.randomBytes(16).toString('hex')\<close> from the drawn bytes \<open>rnd\<close>, and the new
  session. Building the URL and opening the window come after the session is stored.
\<close>

definition generate_session_id :: "byte list \<Rightarrow> string" where
  "generate_session_id rnd = to_hex rnd"

definition new_session :: "int \<Rightarrow> string \<Rightarrow> string \<Rightarrow> string \<Rightarrow> string list \<Rightarrow> oauth_session" where
  "new_session now sid uri cid scs =
     \<lparr>sessionId = sid, redirectUri = uri,
      result = None, completed = False, createdAt = now,
      expiresAt = now + SESSION_TIMEOUT, clientId = cid, scopes = scs\<rparr>"

text \<open>
  \<open>opened\<close> says whether building the URL and loading it in the new window went
  through; when it did not, the handler answers with a failure and the session stays.
\<close>

definition start_oauth_flow ::
  "int \<Rightarrow> byte list \<Rightarrow> string \<Rightarrow> string \<Rightarrow> string list \<Rightarrow> bool \<Rightarrow> sessions
     \<Rightarrow> string option \<times> sessions" where
  "start_oauth_flow now rnd uri cid scs opened S =
     (let S1 = (if length S \<ge> MAX_SESSIONS then cleanupExpiredSessions now S else S) in
      if length S1 \<ge> MAX_SESSIONS then (None, S1)
      else
        let sid = generate_session_id rnd;
            S2 = js_set S1 sid (new_session now sid uri cid scs)
        in (if opened then Some sid else None, S2))"

section \<open>The job scheduler (backend/ipc/automationIpc.ts)\<close>

datatype job_status = running | completed_job | failed

text \<open>
  A browser context is a handle, here a number that the browser hands out. The result
  of an action is kept as text.
\<close>

record automation_job =
  job_id :: string
  status :: job_status
  job_result :: "string option"
  job_error :: "string option"
  job_createdAt :: int
  job_expiresAt :: int
  "context" :: "nat option"

text \<open>
  The scheduler's state: the job table, and the contexts that
  \<^verbatim>\<open>createSecureContext\<close> has returned and on which \<^verbatim>\<open>close()\<close> has not been
  called.
\<close>

record automation_state =
  activeJobs :: "(string \<times> automation_job) list"
  open_contexts :: "nat list"

definition JOB_TIMEOUT :: int where
  "JOB_TIMEOUT = 5 * 60 * 1000"

definition MAX_CONCURRENT_JOBS :: nat where
  "MAX_CONCURRENT_JOBS = 5"

text \<open>\<^verbatim>\<open>if (job.context) { job.context.close() }\<close>.\<close>

definition close_context :: "automation_job \<Rightarrow> nat list \<Rightarrow> nat list" where
  "close_context j cs = (case context j of None \<Rightarrow> cs | Some c \<Rightarrow> removeAll c cs)"

text \<open>\<^verbatim>\<open>cleanupExpiredJobs\<close> at time \<open>now\<close>: one pass over the entries of the table.\<close>

fun sweep_jobs :: "int \<Rightarrow> (string \<times> automation_job) list \<Rightarrow> nat list \<Rightarrow> nat list" where
  "sweep_jobs now [] cs = cs"
| "sweep_jobs now ((k, j) # js) cs =
     sweep_jobs now js (if now > job_expiresAt j then close_context j cs else cs)"

definition cleanupExpiredJobs :: "int \<Rightarrow> automation_state \<Rightarrow> automation_state" where
  "cleanupExpiredJobs now st =
     \<lparr>activeJobs = filter (\<lambda>(k, j). \<not> now > job_expiresAt j) (activeJobs st),
      open_contexts = sweep_jobs now (activeJobs st) (open_contexts st)\<rparr>"

text \<open>
  \<^verbatim>\<open>ipcMain.handle('run-automation', ..)\<close> up to the point where the task is started
  in the background: the ceiling on running jobs, the identifier
  \<^verbatim>\<open>crypto.randomBytes(8).toString('hex')\<close>, the new entry.
\<close>

definition run_automation :: "int \<Rightarrow> byte list \<Rightarrow> automation_state \<Rightarrow> string option \<times> automation_state" where
  "run_automation now rnd st =
     (if length (filter (\<lambda>(k, j). status j = running) (activeJobs st)) \<ge> MAX_CONCURRENT_JOBS
      then (None, st)
      else
        let jobId = to_hex rnd in
        (Some jobId,
         st\<lparr>activeJobs :=
              js_set (activeJobs st) jobId
                \<lparr>job_id = jobId, status = running, job_result = None, job_error = None,
                 job_createdAt = now, job_expiresAt = now + JOB_TIMEOUT, context = None\<rparr>\<rparr>))"

text \<open>
  The background task \<^verbatim>\<open>runAutomation\<close> runs in two stretches, separated by the
  time the action takes.

  First stretch: the browser returns a new context \<open>c\<close>, and
  \<^verbatim>\<open>activeJobs[jobId].context = context\<close> stores it. When the entry is gone, that
  assignment throws; the \<^verbatim>\<open>catch\<close> block and the \<^verbatim>\<open>.catch\<close> of the caller
  then read \<^verbatim>\<open>activeJobs[jobId]\<close> again and throw as well, so nothing else happens,
  and no \<^verbatim>\<open>close()\<close> is called on the context.
\<close>

definition task_context_created :: "string \<Rightarrow> nat \<Rightarrow> automation_state \<Rightarrow> automation_state" where
  "task_context_created jobId c st =
     (case js_get (activeJobs st) jobId of
        Own j \<Rightarrow>
          \<lparr>activeJobs = js_set (activeJobs st) jobId (j\<lparr>context := Some c\<rparr>),
           open_contexts = c # open_contexts st\<rparr>
      | _ \<Rightarrow> st\<lparr>open_contexts := c # open_contexts st\<rparr>)"

text \<open>
  Second stretch: the action returns a value or throws an error with message \<open>m\<close>
  (\<^verbatim>\<open>message || 'Unknown error'\<close>); the entry gets its final status, when it is
  still there.
\<close>

datatype action_outcome = Returned string | Threw string

definition task_finished :: "string \<Rightarrow> action_outcome \<Rightarrow> automation_state \<Rightarrow> automation_state" where
  "task_finished jobId out st =
     (case js_get (activeJobs st) jobId of
        Own j \<Rightarrow>
          st\<lparr>activeJobs :=
               js_set (activeJobs st) jobId
                 (case out of
                    Returned r \<Rightarrow> j\<lparr>status := completed_job, job_result := Some r\<rparr>
                  | Threw m \<Rightarrow>
                      j\<lparr>status := failed,
                        job_error := Some (if m = [] then ''Unknown error'' else m)\<rparr>)\<rparr>
      | _ \<Rightarrow> st)"

datatype status_response =
    JobNotFound
  | JobHasExpired
  | JobStatus bool "job_status option" "string option" "string option"

text \<open>
  \<^verbatim>\<open>ipcMain.handle('check-automation-status', ..)\<close> at time \<open>now\<close>. The third
  component tells whether the handler has set the one-minute timer that purges the
  job; the timer itself is \<open>purge_timer\<close>, run with the job the handler held.
\<close>

definition check_automation_status ::
  "int \<Rightarrow> string \<Rightarrow> automation_state \<Rightarrow> status_response \<times> automation_state \<times> bool" where
  "check_automation_status now jobId st =
     (case js_get (activeJobs st) jobId of
        Undefined \<Rightarrow> (JobNotFound, st, False)
      | Inherited \<Rightarrow> (JobStatus True None None None, st, False)
      | Own j \<Rightarrow>
          if now > job_expiresAt j then
            (JobHasExpired,
             \<lparr>activeJobs = js_delete (activeJobs st) jobId,
              open_contexts = close_context j (open_contexts st)\<rparr>,
             False)
          else
            (JobStatus (status j \<noteq> failed) (Some (status j)) (job_result j) (job_error j),
             st, status j = completed_job \<or> status j = failed))"

definition purge_timer :: "string \<Rightarrow> automation_job \<Rightarrow> automation_state \<Rightarrow> automation_state" where
  "purge_timer jobId j st =
     \<lparr>activeJobs = js_delete (activeJobs st) jobId,
      open_contexts = close_context j (open_contexts st)\<rparr>"

text \<open>
  A context is leaked when it is open and no job of the table holds it: no sweep, poll
  or timer will call \<^verbatim>\<open>close()\<close> on it.
\<close>

definition held_contexts :: "automation_state \<Rightarrow> nat list" where
  "held_contexts st = concat (map (\<lambda>(k, j). case context j of None \<Rightarrow> [] | Some c \<Rightarrow> [c]) (activeJobs st))"

definition leaked_contexts :: "automation_state \<Rightarrow> nat list" where
  "leaked_contexts st = filter (\<lambda>c. c \<notin> set (held_contexts st)) (open_contexts st)"

section \<open>Properties of the object operations\<close>

lemma js_get_delete_same:
  "js_get (js_delete S k) k = (if k \<in> set object_prototype_keys then Inherited else Undefined)"
  by (simp add: js_get_def js_delete_def delete_conv')

lemma js_get_delete_other: "k' \<noteq> k \<Longrightarrow> js_get (js_delete S k) k' = js_get S k'"
  by (simp add: js_get_def js_delete_def delete_conv')

lemma js_get_set_same: "js_get (js_set S k v) k = Own v"
  by (simp add: js_get_def js_set_def update_conv')

lemma js_get_set_other: "k' \<noteq> k \<Longrightarrow> js_get (js_set S k v) k' = js_get S k'"
  by (simp add: js_get_def js_set_def update_conv')

lemma js_get_Own_iff: "js_get S k = Own v \<longleftrightarrow> map_of S k = Some v"
  by (simp add: js_get_def split: option.splits)

lemma unat_byte: "n < 256 \<Longrightarrow> unat (of_nat n :: byte) = n"
  by (simp add: unat_of_nat)

lemma utf8_octets_lt: "cp < 0x110000 \<Longrightarrow> b \<in> set (utf8_octets cp) \<Longrightarrow> b < 256"
  by (auto simp: utf8_octets_def split: if_splits)

lemma unat_utf8_bytes: "cp < 0x110000 \<Longrightarrow> map unat (utf8_bytes cp) = utf8_octets cp"
  unfolding utf8_bytes_def map_map
  by (rule map_idI) (simp add: unat_byte utf8_octets_lt)

lemma run1:
  assumes "cp < 0x80"
  shows "utf8_run utf8_initial (utf8_octets cp @ rest) = cp # utf8_run utf8_initial rest"
  using assms by (simp add: utf8_octets_def utf8_handler_def utf8_start_def utf8_initial_def)

lemma handler_start: "utf8_handler utf8_initial b = utf8_start b"
  by (simp add: utf8_handler_def utf8_initial_def)

lemma handler_last:
  assumes "bytes_needed d = Suc (bytes_seen d)" "lower_boundary d \<le> b" "b \<le> upper_boundary d"
  shows "utf8_handler d b = (utf8_initial, [code_point d * 64 + b mod 64])"
  using assms by (simp add: utf8_handler_def)

lemma handler_more:
  assumes "bytes_needed d \<noteq> 0" "bytes_needed d \<noteq> Suc (bytes_seen d)"
    "lower_boundary d \<le> b" "b \<le> upper_boundary d"
  shows "utf8_handler d b =
     (d\<lparr>lower_boundary := 0x80, upper_boundary := 0xBF,
        code_point := code_point d * 64 + b mod 64, bytes_seen := Suc (bytes_seen d)\<rparr>, [])"
  using assms by (simp add: utf8_handler_def)

lemma mod_offset:
  fixes q :: nat
  shows "q < 32 \<Longrightarrow> (0xC0 + q) mod 32 = q"
    and "q < 16 \<Longrightarrow> (0xE0 + q) mod 16 = q"
    and "q < 8 \<Longrightarrow> (0xF0 + q) mod 8 = q"
    and "q < 64 \<Longrightarrow> (0x80 + q) mod 64 = q"
  by (simp_all add: mod_if)

lemma div_bounds:
  fixes n :: nat
  shows "n < k * d \<Longrightarrow> n div d < k" and "0 < d \<Longrightarrow> k * d \<le> n \<Longrightarrow> k \<le> n div d"
  by (simp_all add: less_mult_imp_div_less less_eq_div_iff_mult_less_eq)

lemma start2:
  assumes "2 \<le> q" "q < 32"
  shows "utf8_start (0xC0 + q) = (utf8_initial\<lparr>bytes_needed := 1, code_point := q\<rparr>, [])"
  using assms by (simp add: utf8_start_def mod_offset)

lemma start3:
  assumes "q < 16"
  shows "utf8_start (0xE0 + q) =
     (utf8_initial\<lparr>bytes_needed := 2, code_point := q,
        lower_boundary := (if q = 0 then 0xA0 else 0x80),
        upper_boundary := (if q = 13 then 0x9F else 0xBF)\<rparr>, [])"
  using assms by (simp add: utf8_start_def mod_offset)

lemma start4:
  assumes "q < 5"
  shows "utf8_start (0xF0 + q) =
     (utf8_initial\<lparr>bytes_needed := 3, code_point := q,
        lower_boundary := (if q = 0 then 0x90 else 0x80),
        upper_boundary := (if q = 4 then 0x8F else 0xBF)\<rparr>, [])"
  using assms by (simp add: utf8_start_def mod_offset)

lemma run2:
  assumes "0x80 \<le> cp" "cp < 0x800"
  shows "utf8_run utf8_initial (utf8_octets cp @ rest) = cp # utf8_run utf8_initial rest"
proof -
  define q where "q = cp div 64"
  define r where "r = cp mod 64"
  have q: "2 \<le> q" "q < 32"
    using assms div_bounds(1) [of cp 32 64] div_bounds(2) [of 64 2 cp] by (simp_all add: q_def)
  have r: "r < 64" unfolding r_def by simp
  have cp: "q * 64 + r = cp" unfolding q_def r_def by simp
  have oct: "utf8_octets cp = [0xC0 + q, 0x80 + r]"
    using assms by (simp add: utf8_octets_def q_def r_def)
  have h2: "utf8_handler (utf8_initial\<lparr>bytes_needed := 1, code_point := q\<rparr>) (0x80 + r)
      = (utf8_initial, [cp])"
    using r by (subst handler_last) (simp_all add: utf8_initial_def mod_offset cp)
  show ?thesis
    unfolding oct
    by (simp only: append_Cons append_Nil utf8_run.simps handler_start start2 [OF q] h2
        fst_conv snd_conv)
qed

lemma run3:
  assumes "0x800 \<le> cp" "cp < 0x10000" "\<not> (0xD800 \<le> cp \<and> cp \<le> 0xDFFF)"
  shows "utf8_run utf8_initial (utf8_octets cp @ rest) = cp # utf8_run utf8_initial rest"
proof -
  define t where "t = cp div 64"
  define r where "r = cp mod 64"
  define q where "q = t div 64"
  define m where "m = t mod 64"
  have r: "r < 64" and m: "m < 64" unfolding r_def m_def by simp_all
  have cp: "t * 64 + r = cp" unfolding t_def r_def by simp
  have t: "q * 64 + m = t" unfolding q_def m_def by simp
  have tb: "32 \<le> t" "t < 1024"
    using assms div_bounds(1) [of cp 1024 64] div_bounds(2) [of 64 32 cp] by (simp_all add: t_def)
  have ts: "t < 864 \<or> 896 \<le> t"
    using assms(3) div_bounds(1) [of cp 864 64] div_bounds(2) [of 64 896 cp]
    by (auto simp: t_def)
  have q: "q < 16" using tb t m by linarith
  have q4096: "cp div 4096 = q" unfolding q_def t_def by (simp add: div_mult2_eq)
  have oct: "utf8_octets cp = [0xE0 + q, 0x80 + m, 0x80 + r]"
    using assms(1,2) by (simp add: utf8_octets_def q4096) (simp add: m_def t_def r_def)
  define d1 where "d1 = utf8_initial\<lparr>bytes_needed := 2, code_point := q,
        lower_boundary := (if q = 0 then 0xA0 else 0x80),
        upper_boundary := (if q = 13 then 0x9F else 0xBF)\<rparr>"
  define d2 where "d2 = d1\<lparr>lower_boundary := 0x80, upper_boundary := 0xBF,
        code_point := t, bytes_seen := Suc 0\<rparr>"
  have lo: "lower_boundary d1 \<le> 0x80 + m" using tb t m by (auto simp: d1_def)
  have hi: "0x80 + m \<le> upper_boundary d1" using ts t m by (auto simp: d1_def)
  have h2: "utf8_handler d1 (0x80 + m) = (d2, [])"
    using lo hi m
    by (subst handler_more) (simp_all add: d1_def d2_def utf8_initial_def mod_offset t)
  have h3: "utf8_handler d2 (0x80 + r) = (utf8_initial, [cp])"
    using r by (subst handler_last) (simp_all add: d1_def d2_def utf8_initial_def mod_offset cp)
  show ?thesis
    unfolding oct
    by (simp only: append_Cons append_Nil utf8_run.simps handler_start start3 [OF q]
        d1_def [symmetric] h2 h3 fst_conv snd_conv)
qed

lemma run4:
  assumes "0x10000 \<le> cp" "cp < 0x110000"
  shows "utf8_run utf8_initial (utf8_octets cp @ rest) = cp # utf8_run utf8_initial rest"
proof -
  define t where "t = cp div 64"
  define r where "r = cp mod 64"
  define s where "s = t div 64"
  define m where "m = t mod 64"
  define q where "q = s div 64"
  define n where "n = s mod 64"
  have r: "r < 64" and m: "m < 64" and n: "n < 64" unfolding r_def m_def n_def by simp_all
  have cp: "t * 64 + r = cp" unfolding t_def r_def by simp
  have t: "s * 64 + m = t" unfolding s_def m_def by simp
  have s: "q * 64 + n = s" unfolding q_def n_def by simp
  have s4096: "cp div 4096 = s" unfolding s_def t_def by (simp add: div_mult2_eq)
  have q262144: "cp div 262144 = q" unfolding q_def s_def t_def by (simp add: div_mult2_eq)
  have sb: "16 \<le> s" "s < 272"
    using assms div_bounds(1) [of cp 272 4096] div_bounds(2) [of 4096 16 cp]
    by (simp_all add: s4096 [symmetric])
  have q: "q < 5" using sb s n by linarith
  have oct: "utf8_octets cp = [0xF0 + q, 0x80 + n, 0x80 + m, 0x80 + r]"
    using assms by (simp add: utf8_octets_def q262144 s4096) (simp add: n_def m_def t_def r_def s_def)
  define d1 where "d1 = utf8_initial\<lparr>bytes_needed := 3, code_point := q,
        lower_boundary := (if q = 0 then 0x90 else 0x80),
        upper_boundary := (if q = 4 then 0x8F else 0xBF)\<rparr>"
  define d2 where "d2 = d1\<lparr>lower_boundary := 0x80, upper_boundary := 0xBF,
        code_point := s, bytes_seen := Suc 0\<rparr>"
  define d3 where "d3 = d2\<lparr>lower_boundary := 0x80, upper_boundary := 0xBF,
        code_point := t, bytes_seen := Suc (Suc 0)\<rparr>"
  have lo: "lower_boundary d1 \<le> 0x80 + n" using sb s n by (auto simp: d1_def)
  have hi: "0x80 + n \<le> upper_boundary d1" using sb s n by (auto simp: d1_def)
  have h2: "utf8_handler d1 (0x80 + n) = (d2, [])"
    using lo hi n
    by (subst handler_more) (simp_all add: d1_def d2_def utf8_initial_def mod_offset s)
  have h3: "utf8_handler d2 (0x80 + m) = (d3, [])"
    using m
    by (subst handler_more) (simp_all add: d1_def d2_def d3_def utf8_initial_def mod_offset t)
  have h4: "utf8_handler d3 (0x80 + r) = (utf8_initial, [cp])"
    using r
    by (subst handler_last) (simp_all add: d1_def d2_def d3_def utf8_initial_def mod_offset cp)
  show ?thesis
    unfolding oct
    by (simp only: append_Cons append_Nil utf8_run.simps handler_start start4 [OF q]
        d1_def [symmetric] h2 h3 h4 fst_conv snd_conv)
qed

lemma utf8_run_octets:
  assumes "valid_scalar cp"
  shows "utf8_run utf8_initial (utf8_octets cp @ rest) = cp # utf8_run utf8_initial rest"
proof -
  consider "cp < 0x80" | "0x80 \<le> cp \<and> cp < 0x800" | "0x800 \<le> cp \<and> cp < 0x10000"
    | "0x10000 \<le> cp" by linarith
  then show ?thesis
    using assms run1 run2 run3 run4 unfolding valid_scalar_def by cases auto
qed

lemma utf8_run_concat:
  "list_all valid_scalar cps \<Longrightarrow> utf8_run utf8_initial (concat (map utf8_octets cps)) = cps"
  by (induction cps) (simp_all add: utf8_initial_def [symmetric] utf8_run_octets, simp add: utf8_initial_def)

lemma unat_concat_utf8_bytes:
  "list_all valid_scalar cps \<Longrightarrow>
     map unat (concat (map utf8_bytes cps)) = concat (map utf8_octets cps)"
  by (induction cps) (simp_all add: unat_utf8_bytes valid_scalar_def)

lemma utf8_decode_encode:
  "list_all valid_scalar cps \<Longrightarrow> utf8_decode (concat (map utf8_bytes cps)) = cps"
  by (simp add: utf8_decode_def unat_concat_utf8_bytes utf8_run_concat)

lemma of_unat_unit: "of_nat (unat u) = (u :: code_unit)"
  by simp

lemma unit_lt: "unat (u :: code_unit) < 65536"
  using unsigned_less [of u, where 'a = nat] by simp

lemma pair_scalar:
  assumes "is_lead u" "is_trail v"
  defines "cp \<equiv> 0x10000 + (unat u - 0xD800) * 0x400 + (unat v - 0xDC00)"
  shows "valid_scalar cp" and "code_units cp = [u, v]" and "cp \<noteq> 0xFEFF"
proof -
  define a where "a = unat u - 0xD800"
  define b where "b = unat v - 0xDC00"
  have a: "a < 0x400" "0xD800 + a = unat u" using assms(1) by (auto simp: a_def is_lead_def)
  have b: "b < 0x400" "0xDC00 + b = unat v" using assms(2) by (auto simp: b_def is_trail_def)
  have cp: "cp = 0x10000 + (a * 0x400 + b)" by (simp add: cp_def a_def b_def)
  show "valid_scalar cp" using a b by (simp add: cp valid_scalar_def)
  show "cp \<noteq> 0xFEFF" by (simp add: cp)
  have d: "(a * 0x400 + b) div 0x400 = a" and m: "(a * 0x400 + b) mod 0x400 = b"
    using b(1) by simp_all
  have "code_units cp = [of_nat (0xD800 + a), of_nat (0xDC00 + b)]"
    unfolding code_units_def cp using d m by simp
  then show "code_units cp = [u, v]"
    by (simp only: a(2) b(2) of_unat_unit)
qed

lemma single_scalar:
  assumes "\<not> is_lead u" "\<not> is_trail u"
  shows "valid_scalar (unat u)" and "code_units (unat u) = [u]"
  using assms unit_lt [of u]
  by (auto simp: valid_scalar_def is_lead_def is_trail_def code_units_def)

lemma well_formed_scalar_values:
  "well_formed s \<Longrightarrow>
     list_all valid_scalar (scalar_values s) \<and> concat (map code_units (scalar_values s)) = s"
proof (induction s rule: well_formed.induct)
  case 1
  then show ?case by simp
next
  case (2 u us)
  show ?case
  proof (cases "is_lead u")
    case True
    with "2.prems" obtain v r where us: "us = v # r" and v: "is_trail v" and r: "well_formed r"
      by (auto split: list.splits)
    from "2.IH"(1) [OF True us] v r
    have "list_all valid_scalar (scalar_values r) \<and> concat (map code_units (scalar_values r)) = r"
      by simp
    then show ?thesis
      using True v pair_scalar(1,2) [OF True v] by (simp add: us)
  next
    case False
    with "2.prems" have nt: "\<not> is_trail u" and w: "well_formed us" by simp_all
    from "2.IH"(2) [OF False] w
    have "list_all valid_scalar (scalar_values us) \<and> concat (map code_units (scalar_values us)) = us"
      by simp
    then show ?thesis
      using False nt single_scalar [OF False nt] by simp
  qed
qed

lemma strip_bom_scalar_values:
  assumes "well_formed s" "\<not> starts_with_bom s"
  shows "strip_bom (scalar_values s) = scalar_values s"
proof (cases s)
  case Nil
  then show ?thesis by simp
next
  case (Cons u us)
  show ?thesis
  proof (cases "is_lead u")
    case True
    with assms(1) Cons obtain v r where us: "us = v # r" and v: "is_trail v"
      by (auto split: list.splits)
    show ?thesis using True v pair_scalar(3) [OF True v] by (simp add: Cons us)
  next
    case False
    with assms(1) Cons have nt: "\<not> is_trail u" by simp
    have "unat u \<noteq> 0xFEFF"
    proof
      assume "unat u = 0xFEFF"
      then have "of_nat (unat u) = (of_nat 0xFEFF :: code_unit)" by simp
      then have "u = 0xFEFF" by simp
      with assms(2) Cons show False by (simp add: starts_with_bom_def)
    qed
    then show ?thesis using False nt by (simp add: Cons)
  qed
qed

lemma TextDecoder_TextEncoder:
  assumes "well_formed s" "\<not> starts_with_bom s"
  shows "TextDecoder_decode (TextEncoder_encode s) = s"
  using well_formed_scalar_values [OF assms(1)] strip_bom_scalar_values [OF assms]
  by (simp add: TextDecoder_decode_def TextEncoder_encode_def utf8_decode_encode)

lemma index_of_nth: "distinct xs \<Longrightarrow> n < length xs \<Longrightarrow> index_of (xs ! n) xs = Some n"
proof (induction xs arbitrary: n)
  case Nil
  then show ?case by simp
next
  case (Cons x xs)
  show ?case
  proof (cases n)
    case 0
    then show ?thesis by simp
  next
    case (Suc m)
    with Cons.prems have "xs ! m \<noteq> x" "index_of (xs ! m) xs = Some m"
      using Cons.IH [of m] by auto
    with Suc show ?thesis by simp
  qed
qed

lemma distinct_b64_alphabet: "distinct b64_alphabet"
  by (simp add: b64_alphabet_def)

lemma length_b64_alphabet: "length b64_alphabet = 64"
  by (simp add: b64_alphabet_def)

lemma b64_index_char: "n < 64 \<Longrightarrow> b64_index (b64_char n) = Some n"
  by (simp add: b64_index_def b64_char_def index_of_nth distinct_b64_alphabet length_b64_alphabet)

lemma b64_alphabet_no_ws: "c \<in> set b64_alphabet \<Longrightarrow> \<not> ascii_whitespace c \<and> c \<noteq> CHR ''=''"
  by (auto simp: b64_alphabet_def ascii_whitespace_def)

lemma b64_char_not_ws: "n < 64 \<Longrightarrow> \<not> ascii_whitespace (b64_char n)"
  using b64_alphabet_no_ws [of "b64_char n"] by (simp add: b64_char_def length_b64_alphabet)

lemma b64_char_not_pad: "n < 64 \<Longrightarrow> b64_char n \<noteq> CHR ''=''"
  using b64_alphabet_no_ws [of "b64_char n"] by (simp add: b64_char_def length_b64_alphabet)

lemma of_unat_byte: "of_nat (unat a) = (a :: byte)"
  by simp

lemma sextets_lt: "x \<in> set (sextets bs) \<Longrightarrow> x < 64"
proof (induction bs arbitrary: x rule: sextets.induct)
  case (1 a b c r)
  have "unat a < 256" "unat b < 256" "unat c < 256" using unsigned_less [where 'b=8] by simp_all
  with 1 show ?case by auto
next
  case (2 a b)
  have "unat a < 256" "unat b < 256" using unsigned_less [where 'b=8] by simp_all
  with 2 show ?case by auto
next
  case (3 a)
  have "unat a < 256" using unsigned_less [where 'b=8] by simp_all
  with 3 show ?case by auto
qed simp

lemma unsextets_sextets: "unsextets (sextets bs) = bs"
proof (induction bs rule: sextets.induct)
  case (1 a b c r)
  have l: "unat a < 256" "unat b < 256" "unat c < 256" using unsigned_less [where 'b=8] by simp_all
  have e1: "unat a div 4 * 4 + (unat a mod 4 * 16 + unat b div 16) div 16 = unat a"
    using l by simp
  have e2: "(unat a mod 4 * 16 + unat b div 16) mod 16 * 16 + (unat b mod 16 * 4 + unat c div 64) div 4 = unat b"
    using l by (simp add: mod_mult2_eq div_mult2_eq)
  have e3: "(unat b mod 16 * 4 + unat c div 64) mod 4 * 64 + unat c mod 64 = unat c"
    using l by simp
  show ?case using 1 by (simp only: sextets.simps unsextets.simps append_Cons append_Nil e1 e2 e3 of_unat_byte)
next
  case (2 a b)
  have l: "unat a < 256" "unat b < 256" using unsigned_less [where 'b=8] by simp_all
  have e1: "unat a div 4 * 4 + (unat a mod 4 * 16 + unat b div 16) div 16 = unat a"
    using l by simp
  have e2: "(unat a mod 4 * 16 + unat b div 16) mod 16 * 16 + (unat b mod 16 * 4) div 4 = unat b"
    using l by simp
  show ?case by (simp only: sextets.simps unsextets.simps append_Cons append_Nil e1 e2 of_unat_byte)
next
  case (3 a)
  have l: "unat a < 256" using unsigned_less [where 'b=8] by simp_all
  have e1: "unat a div 4 * 4 + (unat a mod 4 * 16) div 16 = unat a"
    using l by simp
  show ?case by (simp only: sextets.simps unsextets.simps append_Cons append_Nil e1 of_unat_byte)
qed simp

lemma length_sextets:
  "length (sextets bs) = 4 * (length bs div 3) + (if length bs mod 3 = 0 then 0 else length bs mod 3 + 1)"
  by (induction bs rule: sextets.induct) (simp_all add: div_add_self1 mod_add_self1)

lemma sextets_chars_no_pad: "CHR ''='' \<notin> set (map b64_char (sextets bs))"
  using sextets_lt b64_char_not_pad by fastforce

lemma filter_ws_btoa: "filter (\<lambda>c. \<not> ascii_whitespace c) (btoa bs) = btoa bs"
proof -
  have "\<forall>c \<in> set (btoa bs). \<not> ascii_whitespace c"
    using sextets_lt b64_char_not_ws
    by (auto simp: btoa_def padding_def ascii_whitespace_def)
  then show ?thesis by (simp add: filter_id_conv)
qed

lemma strip_padding_btoa: "strip_padding (btoa bs) = map b64_char (sextets bs)"
proof -
  let ?cs = "map b64_char (sextets bs)"
  have np: "CHR ''='' \<notin> set ?cs" by (rule sextets_chars_no_pad)
  have len: "length ?cs = 4 * (length bs div 3) + (if length bs mod 3 = 0 then 0 else length bs mod 3 + 1)"
    by (simp add: length_sextets)
  consider (z) "length bs mod 3 = 0" | (o) "length bs mod 3 = 1" | (t) "length bs mod 3 = 2"
    by linarith
  then show ?thesis
  proof cases
    case z
    then have b: "btoa bs = ?cs" by (simp add: btoa_def padding_def)
    have "?cs \<noteq> [] \<Longrightarrow> last ?cs \<noteq> CHR ''=''" using np last_in_set by metis
    then show ?thesis unfolding b strip_padding_def by auto
  next
    case o
    then have b: "btoa bs = ?cs @ ''==''" by (simp add: btoa_def padding_def)
    have "length (?cs @ ''=='') mod 4 = 0" using len o by simp
    then show ?thesis unfolding b strip_padding_def by (simp add: butlast_append)
  next
    case t
    then have b: "btoa bs = ?cs @ ''=''" by (simp add: btoa_def padding_def)
    have l4: "length (?cs @ ''='') mod 4 = 0" using len t by simp
    have ne: "?cs \<noteq> []" using len t by auto
    have "last ?cs \<noteq> CHR ''=''" using np ne last_in_set by metis
    then show ?thesis unfolding b strip_padding_def using l4 ne by (simp add: butlast_append)
  qed
qed

lemma atob_btoa: "atob (btoa bs) = Some bs"
proof -
  let ?cs = "map b64_char (sextets bs)"
  have in64: "\<And>x. x \<in> set (sextets bs) \<Longrightarrow> x < 64" by (rule sextets_lt)
  have len: "length ?cs mod 4 \<noteq> 1"
    by (simp add: length_sextets)
  have ok: "\<not> list_ex (\<lambda>c. b64_index c = None) ?cs"
    unfolding list_ex_iff
  proof
    assume "\<exists>c \<in> set ?cs. b64_index c = None"
    then obtain n where "n \<in> set (sextets bs)" and "b64_index (b64_char n) = None" by auto
    then show False using in64 b64_index_char by fastforce
  qed
  have "map (\<lambda>c. the (b64_index c)) ?cs = map (\<lambda>n. the (b64_index (b64_char n))) (sextets bs)"
    by (simp add: o_def)
  also have "\<dots> = sextets bs"
    by (rule map_idI) (simp add: in64 b64_index_char)
  finally have idx: "map (\<lambda>c. the (b64_index c)) ?cs = sextets bs" .
  have "atob (btoa bs) = Some (unsextets (map (\<lambda>c. the (b64_index c)) ?cs))"
    unfolding atob_def filter_ws_btoa strip_padding_btoa Let_def
    using len ok by (simp only: if_False)
  then show ?thesis by (simp only: idx unsextets_sextets)
qed

section \<open>Properties of the crypto engine\<close>

lemma base64_round_trip: "base64ToArrayBuffer (arrayBufferToBase64 bs) = Some bs"
  by (simp add: base64ToArrayBuffer_def arrayBufferToBase64_def atob_btoa)

lemma arrayBufferToBase64_inj:
  assumes "arrayBufferToBase64 a = arrayBufferToBase64 b"
  shows "a = b"
proof -
  have "Some a = base64ToArrayBuffer (arrayBufferToBase64 a)"
    by (simp only: base64_round_trip)
  also have "\<dots> = base64ToArrayBuffer (arrayBufferToBase64 b)"
    by (simp only: assms)
  also have "\<dots> = Some b"
    by (simp only: base64_round_trip)
  finally show ?thesis by (simp only: option.inject)
qed

lemma decrypt_of_encrypt:
  assumes "aead_correct pl" and "length iv = 12" and "encryptValue pl P K iv = Inr B"
  shows "decryptValue pl B K = Inr (TextDecoder_decode (TextEncoder_encode P))"
proof -
  from assms(3) obtain c where c: "subtle_encrypt pl K iv (TextEncoder_encode P) = Some c"
    and B: "B = arrayBufferToBase64 (iv @ c)"
    by (auto simp: encryptValue_def split: option.splits)
  from assms(1) c have d: "subtle_decrypt pl K iv c = Some (TextEncoder_encode P)"
    by (simp add: aead_correct_def)
  show ?thesis
    using assms(2) d by (simp add: decryptValue_def B base64_round_trip IV_LENGTH_def)
qed

lemma demo_aead_correct: "aead_correct (demo_platform tbl)"
  by (simp add: aead_correct_def demo_platform_def demo_encrypt_def demo_decrypt_def o_def)

lemma demo_tag_checked: "tag_checked (demo_platform tbl)"
  by (simp add: tag_checked_def demo_platform_def demo_decrypt_def)

lemma demo_encryptValue:
  "encryptValue (demo_platform tbl) P k iv
     = Inr (arrayBufferToBase64 (iv @ map (\<lambda>b. b + k) (TextEncoder_encode P) @ replicate 16 k))"
  by (simp add: encryptValue_def demo_platform_def demo_encrypt_def)

lemma of_char_lt: "(of_char c :: nat) < 256"
proof -
  have "(of_char c :: nat) mod 256 = of_char c" by (rule of_char_mod_256)
  moreover have "(of_char c :: nat) mod 256 < 256" by simp
  ultimately show ?thesis by (simp only:)
qed

lemma unat_of_char: "unat (of_nat (of_char c) :: code_unit) = of_char c"
proof -
  have "(of_char c :: nat) < 65536" using of_char_lt [of c] by linarith
  then have "(of_char c :: nat) mod 65536 = of_char c" by (rule mod_less)
  then show ?thesis by (simp add: unat_of_nat)
qed

lemma js_text_well_formed: "well_formed (js_text s)"
proof (induction s)
  case Nil
  then show ?case by (simp add: js_text_def)
next
  case (Cons c s)
  have "\<not> is_lead (of_nat (of_char c))" "\<not> is_trail (of_nat (of_char c))"
    unfolding is_lead_def is_trail_def unat_of_char using of_char_lt [of c] by linarith+
  with Cons show ?case by (simp add: js_text_def)
qed

lemma js_text_no_bom: "\<not> starts_with_bom (js_text s)"
proof (cases s)
  case Nil
  then show ?thesis by (simp add: js_text_def starts_with_bom_def)
next
  case (Cons c r)
  have "(of_nat (of_char c) :: code_unit) \<noteq> 0xFEFF"
  proof
    assume "(of_nat (of_char c) :: code_unit) = 0xFEFF"
    then have "unat (of_nat (of_char c) :: code_unit) = unat (0xFEFF :: code_unit)" by simp
    then have "(of_char c :: nat) = 0xFEFF" by (simp add: unat_of_char)
    then show False using of_char_lt [of c] by linarith
  qed
  then show ?thesis by (simp add: Cons js_text_def starts_with_bom_def)
qed

lemma decrypt_of_encrypt_text:
  assumes "aead_correct pl" and "length iv = 12"
    and "well_formed P" and "\<not> starts_with_bom P"
    and "encryptValue pl P K iv = Inr B"
  shows "decryptValue pl B K = Inr P"
  using decrypt_of_encrypt [OF assms(1,2,5)] TextDecoder_TextEncoder [OF assms(3,4)] by simp

text \<open>
  C1, the claim as stated, fails. The string that consists of the code unit U+FEFF
  is encrypted with key 7 and a zero initialisation vector on the stand-in platform,
  whose cipher is correct; decrypting the blob with the same key returns the empty
  string, because \<^verbatim>\<open>TextDecoder\<close> drops the leading byte order mark.
\<close>

theorem round_trip_fails_on_bom:
  "decryptValue (demo_platform [])
     (arrayBufferToBase64
        ([0,0,0,0,0,0,0,0,0,0,0,0] @ map (\<lambda>b. b + 7) (TextEncoder_encode [0xFEFF]) @ replicate 16 7))
     7 = Inr []
   \<and> encryptValue (demo_platform []) [0xFEFF] 7 [0,0,0,0,0,0,0,0,0,0,0,0]
     = Inr (arrayBufferToBase64
        ([0,0,0,0,0,0,0,0,0,0,0,0] @ map (\<lambda>b. b + 7) (TextEncoder_encode [0xFEFF]) @ replicate 16 7))"
proof -
  have dec: "TextDecoder_decode (TextEncoder_encode [0xFEFF]) = []"
    by (simp add: TextDecoder_decode_def TextEncoder_encode_def utf8_decode_def utf8_bytes_def
      utf8_octets_def is_lead_def is_trail_def utf8_handler_def utf8_start_def utf8_initial_def)
  have enc: "encryptValue (demo_platform []) [0xFEFF] 7 [0,0,0,0,0,0,0,0,0,0,0,0]
     = Inr (arrayBufferToBase64
        ([0,0,0,0,0,0,0,0,0,0,0,0] @ map (\<lambda>b. b + 7) (TextEncoder_encode [0xFEFF]) @ replicate 16 7))"
    by (rule demo_encryptValue)
  from decrypt_of_encrypt [OF demo_aead_correct _ enc] dec enc show ?thesis by simp
qed

text \<open>
  C1, amended. On a platform whose AES-GCM is correct, for every key, every drawn
  initialisation vector of 12 bytes and every plaintext that is well formed (no
  surrogate outside a pair) and does not begin with U+FEFF: when encryptValue returns
  a blob, decryptValue on that blob with the same key returns exactly the plaintext.
\<close>

theorem encrypt_decrypt_round_trip:
  assumes "aead_correct pl" and "length iv = 12"
    and "well_formed P" and "\<not> starts_with_bom P"
    and "encryptValue pl P K iv = Inr B"
  shows "decryptValue pl B K = Inr P"
  using decrypt_of_encrypt_text [OF assms] .

theorem encrypt_decrypt_round_trip_witness:
  "aead_correct (demo_platform []) \<and> length [1,2,3,4,5,6,7,8,9,10,11,12 :: byte] = 12
   \<and> well_formed (js_text ''sk-123'') \<and> \<not> starts_with_bom (js_text ''sk-123'')
   \<and> encryptValue (demo_platform []) (js_text ''sk-123'') 7 [1,2,3,4,5,6,7,8,9,10,11,12]
       = Inr (arrayBufferToBase64
           ([1,2,3,4,5,6,7,8,9,10,11,12]
            @ map (\<lambda>b. b + 7) (TextEncoder_encode (js_text ''sk-123'')) @ replicate 16 7))
   \<and> decryptValue (demo_platform [])
        (arrayBufferToBase64
           ([1,2,3,4,5,6,7,8,9,10,11,12]
            @ map (\<lambda>b. b + 7) (TextEncoder_encode (js_text ''sk-123'')) @ replicate 16 7))
        7 = Inr (js_text ''sk-123'')"
proof -
  have h2: "length [1,2,3,4,5,6,7,8,9,10,11,12 :: byte] = 12" by simp
  note h5 = demo_encryptValue [of "[]" "js_text ''sk-123''" 7 "[1,2,3,4,5,6,7,8,9,10,11,12]"]
  from encrypt_decrypt_round_trip [OF demo_aead_correct h2 js_text_well_formed js_text_no_bom h5]
    demo_aead_correct h2 js_text_well_formed js_text_no_bom h5
  show ?thesis by simp
qed



lemma encryptValue_blob:
  assumes "encryptValue pl P K iv = Inr B"
  shows "\<exists>c. subtle_encrypt pl K iv (TextEncoder_encode P) = Some c
           \<and> B = arrayBufferToBase64 (iv @ c)"
  using assms by (auto simp: encryptValue_def split: option.splits)

lemma length_draw: "length (fst (getRandomValues n g)) = n"
  by (simp add: getRandomValues_def)

lemma shift_shift: "shift m (shift n g) = shift (n + m) g"
  by (simp add: shift_def add.assoc)

lemma draw_shift: "map (shift n g) [0..<m] = map g [n..<n + m]"
proof -
  have "map (shift n g) [0..<m] = map g (map (\<lambda>i. i + n) [0..<m])"
    by (simp add: shift_def o_def add.commute)
  then show ?thesis by (simp add: map_add_upt add.commute)
qed

lemma encryptValue_call_unfold:
  "encryptValue_call pl P K g = (encryptValue pl P K (map g [0..<12]), shift 12 g)"
  by (simp add: encryptValue_call_def getRandomValues_def IV_LENGTH_def)

text \<open>
  C3, the claim as stated, fails: the code takes the vector from the generator and
  does nothing else to keep vectors apart. With a generator that delivers zero bytes
  only, two calls of encryptValue in a row, on the same plaintext and key, return the
  same blob, vector included.
\<close>

theorem same_draw_same_blob:
  "fst (encryptValue_call (demo_platform []) (js_text ''sk-123'') 7 (\<lambda>i. 0))
     = Inr (arrayBufferToBase64
         (map (\<lambda>i. 0) [0..<12]
          @ map (\<lambda>b. b + 7) (TextEncoder_encode (js_text ''sk-123'')) @ replicate 16 7))
   \<and> fst (encryptValue_call (demo_platform []) (js_text ''sk-123'') 7
            (snd (encryptValue_call (demo_platform []) (js_text ''sk-123'') 7 (\<lambda>i. 0))))
       = fst (encryptValue_call (demo_platform []) (js_text ''sk-123'') 7 (\<lambda>i. 0))"
proof -
  have same: "shift 12 (\<lambda>i. 0 :: byte) = (\<lambda>i. 0)" by (simp add: shift_def)
  show ?thesis
    by (simp add: encryptValue_call_unfold same demo_encryptValue)
qed

text \<open>
  C3, amended. A call of encryptValue takes the next 12 bytes of the generator, hands
  them to AES-GCM as the vector together with the key and the encoded plaintext, puts
  them in front of what AES-GCM returns, and leaves the generator behind those 12
  bytes: a later call draws from what comes after them, whatever else is drawn in
  between (\<open>j\<close> bytes here). Two such calls on the same plaintext and key whose drawn
  bytes differ return different blobs, each with its own vector in the first 12 bytes.
\<close>

theorem fresh_iv_fresh_blob:
  assumes "encryptValue_call pl P K g = (Inr B1, g1)"
    and "encryptValue_call pl P K (shift j g1) = (Inr B2, g2)"
  shows "g1 = shift 12 g \<and> g2 = shift (24 + j) g
    \<and> (\<exists>c. subtle_encrypt pl K (map g [0..<12]) (TextEncoder_encode P) = Some c
            \<and> B1 = arrayBufferToBase64 (map g [0..<12] @ c))
    \<and> (\<exists>c. subtle_encrypt pl K (map g [12 + j..<24 + j]) (TextEncoder_encode P) = Some c
            \<and> B2 = arrayBufferToBase64 (map g [12 + j..<24 + j] @ c))
    \<and> map_option (take IV_LENGTH) (base64ToArrayBuffer B1) = Some (map g [0..<12])
    \<and> map_option (take IV_LENGTH) (base64ToArrayBuffer B2) = Some (map g [12 + j..<24 + j])
    \<and> (map g [0..<12] \<noteq> map g [12 + j..<24 + j] \<longrightarrow> B1 \<noteq> B2)"
proof -
  let ?iv1 = "map g [0..<12]" and ?iv2 = "map g [12 + j..<24 + j]"
  from assms(1) have g1: "g1 = shift 12 g" and e1: "encryptValue pl P K ?iv1 = Inr B1"
    by (simp_all add: encryptValue_call_unfold)
  have "encryptValue_call pl P K (shift j g1)
      = (encryptValue pl P K (map g [12 + j..<12 + j + 12]), shift (12 + j + 12) g)"
    unfolding encryptValue_call_unfold g1 shift_shift draw_shift ..
  also have "12 + j + 12 = 24 + j" by simp
  finally have g2: "g2 = shift (24 + j) g" and e2: "encryptValue pl P K ?iv2 = Inr B2"
    using assms(2) by simp_all
  from encryptValue_blob [OF e1] obtain c1
    where c1: "subtle_encrypt pl K ?iv1 (TextEncoder_encode P) = Some c1"
      and B1: "B1 = arrayBufferToBase64 (?iv1 @ c1)" by blast
  from encryptValue_blob [OF e2] obtain c2
    where c2: "subtle_encrypt pl K ?iv2 (TextEncoder_encode P) = Some c2"
      and B2: "B2 = arrayBufferToBase64 (?iv2 @ c2)" by blast
  have l1: "length ?iv1 = 12" and l2: "length ?iv2 = 12" by simp_all
  have h1: "map_option (take IV_LENGTH) (base64ToArrayBuffer B1) = Some ?iv1"
    using l1 by (simp add: B1 base64_round_trip IV_LENGTH_def)
  have h2: "map_option (take IV_LENGTH) (base64ToArrayBuffer B2) = Some ?iv2"
    using l2 by (simp add: B2 base64_round_trip IV_LENGTH_def)
  have diff: "?iv1 \<noteq> ?iv2 \<longrightarrow> B1 \<noteq> B2"
  proof
    assume ne: "?iv1 \<noteq> ?iv2"
    have "?iv1 @ c1 \<noteq> ?iv2 @ c2" using ne l1 l2 by simp
    then show "B1 \<noteq> B2" unfolding B1 B2 using arrayBufferToBase64_inj by blast
  qed
  from g1 g2 c1 B1 c2 B2 h1 h2 diff show ?thesis by blast
qed

theorem fresh_iv_fresh_blob_witness:
  "(let g = (\<lambda>i. of_nat i) :: generator;
        pl = demo_platform [];
        P = js_text ''sk-123'';
        tail = map (\<lambda>b. b + 7) (TextEncoder_encode P) @ replicate 16 7;
        B1 = arrayBufferToBase64 (map g [0..<12] @ tail);
        B2 = arrayBufferToBase64 (map g [12..<24] @ tail)
    in encryptValue_call pl P 7 g = (Inr B1, shift 12 g)
       \<and> encryptValue_call pl P 7 (shift 0 (shift 12 g)) = (Inr B2, shift 24 g)
       \<and> map g [0..<12] \<noteq> map g [12..<24]
       \<and> B1 \<noteq> B2
       \<and> map_option (take IV_LENGTH) (base64ToArrayBuffer B1) = Some (map g [0..<12])
       \<and> map_option (take IV_LENGTH) (base64ToArrayBuffer B2) = Some (map g [12..<24]))"
proof -
  define g where "g = ((\<lambda>i. of_nat i) :: generator)"
  define P where "P = js_text ''sk-123''"
  define tail where "tail = map (\<lambda>b. b + 7) (TextEncoder_encode P) @ replicate 16 (7 :: byte)"
  define B1 where "B1 = arrayBufferToBase64 (map g [0..<12] @ tail)"
  define B2 where "B2 = arrayBufferToBase64 (map g [12..<24] @ tail)"
  have s0: "shift 0 (shift 12 g) = shift 12 g" by (simp add: shift_def)
  have win: "map (shift 12 g) [0..<12] = map g [12..<24]"
    by (simp add: draw_shift)
  have c1: "encryptValue_call (demo_platform []) P 7 g = (Inr B1, shift 12 g)"
    by (simp add: encryptValue_call_unfold demo_encryptValue B1_def tail_def)
  have c2: "encryptValue_call (demo_platform []) P 7 (shift 0 (shift 12 g)) = (Inr B2, shift 24 g)"
    by (simp add: s0 encryptValue_call_unfold win shift_shift demo_encryptValue B2_def tail_def)
  have "hd (map g [0..<12]) = 0" "hd (map g [12..<24]) = 12"
    by (simp_all add: g_def upt_conv_Cons)
  then have ne: "map g [0..<12] \<noteq> map g [12..<24]" by auto
  note t = fresh_iv_fresh_blob [OF c1 c2]
  have d: "B1 \<noteq> B2" using t ne by simp
  have h1: "map_option (take IV_LENGTH) (base64ToArrayBuffer B1) = Some (map g [0..<12])"
    using t by simp
  have h2: "map_option (take IV_LENGTH) (base64ToArrayBuffer B2) = Some (map g [12..<24])"
    using t by simp
  show ?thesis
    unfolding Let_def g_def [symmetric] P_def [symmetric] tail_def [symmetric]
      B1_def [symmetric] B2_def [symmetric]
    using c1 c2 ne d h1 h2 by (intro conjI)
qed














section \<open>Properties of the credential vault\<close>


lemma btoa_nonempty: "bs \<noteq> [] \<Longrightarrow> arrayBufferToBase64 bs \<noteq> []"
  by (cases bs rule: sextets.cases) (simp_all add: arrayBufferToBase64_def btoa_def)

lemma encryptValue_nonempty:
  "length iv = 12 \<Longrightarrow> encryptValue pl t K iv = Inr B \<Longrightarrow> B \<noteq> []"
  by (auto simp: encryptValue_def split: option.splits intro!: btoa_nonempty)

lemma js_get_set_string_same:
  "k \<noteq> ''__proto__'' \<Longrightarrow> js_get (js_set_string T k v) k = Own v"
  by (simp add: js_get_def js_set_string_def update_conv')

lemma js_get_set_string_other:
  "k' \<noteq> k \<Longrightarrow> js_get (js_set_string T k v) k' = js_get T k'"
  by (simp add: js_get_def js_set_string_def update_conv')

lemma saveCredential_try_stores:
  assumes "encryptionKey V = Some K" and "vaultData V = Some D"
    and "JSON_stringify pl c = Some t" and "encryptValue pl t K iv = Inr B"
    and "js_member c ''id'' = Some i" and "js_to_string i \<noteq> None"
  shows "saveCredential_try pl now iv c V =
    (True, V\<lparr>vaultData := Some (D\<lparr>credentials := js_set_string (credentials D) (key_of c) B,
                                    lastUpdated := now\<rparr>)\<rparr>)"
  using assms by (auto simp: saveCredential_try_def key_of_def)

lemma getCredential_try_own:
  assumes "encryptionKey V = Some K" and "vaultData V = Some D"
    and "js_get (credentials D) k = Own B" and "B \<noteq> []"
    and "decryptValue pl B K = Inr t" and "JSON_parse pl t = Some c"
  shows "getCredential_try pl k V = c"
  using assms by (simp add: getCredential_try_def)

lemma getCredential_try_cong:
  assumes "encryptionKey V' = encryptionKey V"
    and "map_option (\<lambda>D. js_get (credentials D) k) (vaultData V')
       = map_option (\<lambda>D. js_get (credentials D) k) (vaultData V)"
  shows "getCredential_try pl k V' = getCredential_try pl k V"
  using assms by (auto simp: getCredential_try_def split: option.splits)

text \<open>What one call of saveCredential does to a ready vault, for a value that JSON keeps.\<close>

lemma save_step:
  assumes "ready V" and "aead_correct pl" and "encrypt_total pl" and "length iv = 12"
    and "json_faithful pl c" and "storable c"
  shows "\<exists>V'. saveCredential pl now iv c V = Inr (True, V') \<and> ready V'
    \<and> encryptionKey V' = encryptionKey V
    \<and> getCredential_try pl (key_of c) V' = c
    \<and> (\<forall>k. k \<noteq> key_of c \<longrightarrow> getCredential_try pl k V' = getCredential_try pl k V)
    \<and> vault_keys V' =
        (if key_of c \<in> set (vault_keys V) then vault_keys V else vault_keys V @ [key_of c])"
proof -
  from assms(1) obtain K D where K: "encryptionKey V = Some K" and D: "vaultData V = Some D"
    and init: "initialized V"
    by (auto simp: ready_def)
  from assms(5) obtain t where t: "JSON_stringify pl c = Some t" and wf: "well_formed t"
    and nb: "\<not> starts_with_bom t" and prs: "JSON_parse pl t = Some c"
    by (auto simp: json_faithful_def split: option.splits)
  from assms(6) obtain i where i: "js_member c ''id'' = Some i" and ik: "js_to_string i \<noteq> None"
    and np: "key_of c \<noteq> ''__proto__''"
    by (auto simp: storable_def split: option.splits)
  from assms(3) obtain ct where "subtle_encrypt pl K iv (TextEncoder_encode t) = Some ct"
    unfolding encrypt_total_def by (metis option.exhaust)
  then have enc: "encryptValue pl t K iv = Inr (arrayBufferToBase64 (iv @ ct))"
    by (simp add: encryptValue_def)
  let ?B = "arrayBufferToBase64 (iv @ ct)"
  let ?D' = "D\<lparr>credentials := js_set_string (credentials D) (key_of c) ?B, lastUpdated := now\<rparr>"
  let ?V' = "V\<lparr>vaultData := Some ?D'\<rparr>"
  have save: "saveCredential pl now iv c V = Inr (True, ?V')"
    using init saveCredential_try_stores [OF K D t enc i ik] by (simp add: saveCredential_def)
  have ne: "?B \<noteq> []" using encryptValue_nonempty [OF assms(4) enc] .
  have dec: "decryptValue pl ?B K = Inr t"
    using decrypt_of_encrypt_text [OF assms(2,4) wf nb enc] .
  have get: "getCredential_try pl (key_of c) ?V' = c"
    by (rule getCredential_try_own [where K = K and D = ?D' and B = ?B and t = t])
      (simp_all add: K js_get_set_string_same np ne dec prs)
  have other: "\<forall>k. k \<noteq> key_of c \<longrightarrow> getCredential_try pl k ?V' = getCredential_try pl k V"
    by (intro allI impI getCredential_try_cong) (simp_all add: D js_get_set_string_other)
  have keys: "vault_keys ?V' =
        (if key_of c \<in> set (vault_keys V) then vault_keys V else vault_keys V @ [key_of c])"
    using np by (simp add: vault_keys_def D js_set_string_def update_keys)
  have "ready ?V'" using init K by (simp add: ready_def)
  with save get other keys show ?thesis using K by (intro exI [of _ ?V']) simp
qed


lemma getAllCredentials_ready:
  "ready V \<Longrightarrow>
     getAllCredentials pl V = Inr (filter js_truthy (map (\<lambda>k. getCredential_try pl k V) (vault_keys V)))"
  by (auto simp: ready_def getAllCredentials_def vault_keys_def)

lemma getCredential_ready: "ready V \<Longrightarrow> getCredential pl k V = Inr (getCredential_try pl k V)"
  by (simp add: ready_def getCredential_def)


text \<open>After a delete, a get on the same id returns \<^verbatim>\<open>null\<close>, whatever the delete returned.\<close>

lemma delete_then_get:
  assumes "initialized V" and "deleteCredential now k V = Inr (b, V')"
  shows "getCredential pl k V' = Inr JNull"
proof (cases "vaultData V")
  case None
  with assms show ?thesis
    by (auto simp: deleteCredential_def getCredential_def getCredential_try_def split: option.splits)
next
  case (Some D)
  show ?thesis
  proof (cases "js_get (credentials D) k = Undefined \<or> js_get (credentials D) k = Own []")
    case True
    with assms Some have "V' = V" by (simp add: deleteCredential_def)
    with assms(1) Some True show ?thesis
      by (auto simp: getCredential_def getCredential_try_def split: option.splits)
  next
    case False
    with assms Some have V': "V' = V\<lparr>vaultData :=
        Some (D\<lparr>credentials := js_delete (credentials D) k, lastUpdated := now\<rparr>)\<rparr>"
      by (simp add: deleteCredential_def)
    show ?thesis
      using assms(1)
      by (auto simp: V' getCredential_def getCredential_try_def js_get_delete_same
          split: option.splits)
  qed
qed



lemma js_text_inj: "js_text a = js_text b \<Longrightarrow> a = b"
proof (induction a arbitrary: b)
  case Nil
  then show ?case by (simp add: js_text_def)
next
  case (Cons x a)
  then obtain y b' where b: "b = y # b'" by (cases b) (auto simp: js_text_def)
  from Cons.prems have h: "(of_nat (of_char x) :: code_unit) = of_nat (of_char y)"
    and t: "js_text a = js_text b'"
    by (simp_all add: b js_text_def)
  from h have "unat (of_nat (of_char x) :: code_unit) = unat (of_nat (of_char y) :: code_unit)"
    by simp
  then have "(of_char x :: nat) = of_char y" by (simp only: unat_of_char)
  then have "x = y" by simp
  with Cons.IH [OF t] b show ?case by simp
qed

lemma demo_json_faithful:
  assumes "distinct (map fst tbl)" and "distinct (map snd tbl)" and "(v, s) \<in> set tbl"
  shows "json_faithful (demo_platform tbl) v"
proof -
  have st: "map_of tbl v = Some s" using assms(1,3) by simp
  let ?inv = "map (\<lambda>(v, s). (js_text s, v)) tbl"
  have fsts: "map fst ?inv = map js_text (map snd tbl)" by (induction tbl) auto
  have d: "distinct (map fst ?inv)"
    unfolding fsts using assms(2) js_text_inj by (auto simp: distinct_map inj_on_def)
  have "(js_text s, v) \<in> set ?inv" using assms(3) by force
  with d have "map_of ?inv (js_text s) = Some v" by simp
  with st show ?thesis
    by (simp add: json_faithful_def demo_platform_def js_text_well_formed js_text_no_bom)
qed

lemma demo_encrypt_total: "encrypt_total (demo_platform tbl)"
  by (simp add: encrypt_total_def demo_platform_def demo_encrypt_def)

text \<open>
  C4. On an initialized vault with an empty table, a credential whose id is
  \<^verbatim>\<open>__proto__\<close> is saved: saveCredential returns true, yet the table is as empty as
  before (only \<^verbatim>\<open>lastUpdated\<close> has changed), and getCredential on that id returns
  \<^verbatim>\<open>null\<close>, not the record.
\<close>

theorem proto_id_is_lost:
  "(let c = credential_object
              \<lparr>cred_id = ''__proto__'', cred_serviceId = ''openai'', cred_name = ''key'',
               cred_value = ''sk-123'', cred_type = apiKey, cred_expiresAt = None,
               cred_refreshToken = None, cred_lastVerified = None, cred_metadata = None\<rparr>;
        pl = demo_platform [(c, ''{id:__proto__,serviceId:openai,name:key,value:sk-123,type:apiKey}'')];
        V0 = \<lparr>encryptionKey = Some 7, initialized = True,
              vaultData = Some \<lparr>version = ''1.0'', credentials = [], lastUpdated = 0, salt = None\<rparr>\<rparr>;
        V1 = \<lparr>encryptionKey = Some 7, initialized = True,
              vaultData = Some \<lparr>version = ''1.0'', credentials = [], lastUpdated = 1, salt = None\<rparr>\<rparr>
    in saveCredential pl 1 [0,0,0,0,0,0,0,0,0,0,0,0] c V0 = Inr (True, V1)
       \<and> getCredential pl ''__proto__'' V1 = Inr JNull)"
proof -
  define c where "c = credential_object
              \<lparr>cred_id = ''__proto__'', cred_serviceId = ''openai'', cred_name = ''key'',
               cred_value = ''sk-123'', cred_type = apiKey, cred_expiresAt = None,
               cred_refreshToken = None, cred_lastVerified = None, cred_metadata = None\<rparr>"
  define jtext where "jtext = ''{id:__proto__,serviceId:openai,name:key,value:sk-123,type:apiKey}''"
  define pl where "pl = (demo_platform [(c, jtext)] :: byte platform)"
  define D0 where "D0 = \<lparr>version = ''1.0'', credentials = [], lastUpdated = 0, salt = None\<rparr>"
  define V0 where
    "V0 = (\<lparr>encryptionKey = Some 7, initialized = True, vaultData = Some D0\<rparr> :: byte credential_vault)"
  define iv where "iv = ([0,0,0,0,0,0,0,0,0,0,0,0] :: byte list)"
  have str: "JSON_stringify pl c = Some (js_text jtext)"
    by (simp add: pl_def demo_platform_def)
  have enc: "encryptValue pl (js_text jtext) 7 iv
      = Inr (arrayBufferToBase64 (iv @ map (\<lambda>b. b + 7) (TextEncoder_encode (js_text jtext)) @ replicate 16 7))"
    unfolding pl_def by (rule demo_encryptValue)
  have mem: "js_member c ''id'' = Some (JString ''__proto__'')"
    by (simp add: c_def credential_object_def)
  have key: "key_of c = ''__proto__''" by (simp add: key_of_def mem)
  have save: "saveCredential pl 1 iv c V0 =
      Inr (True, \<lparr>encryptionKey = Some 7, initialized = True,
              vaultData = Some \<lparr>version = ''1.0'', credentials = [], lastUpdated = 1, salt = None\<rparr>\<rparr>)"
    using saveCredential_try_stores [of V0 7 D0 pl c "js_text jtext" iv _ "JString ''__proto__''" 1,
        OF _ _ str enc mem]
    by (simp add: saveCredential_def V0_def D0_def key js_set_string_def)
  have get: "getCredential pl ''__proto__'' \<lparr>encryptionKey = Some 7, initialized = True,
              vaultData = Some \<lparr>version = ''1.0'', credentials = [], lastUpdated = 1, salt = None\<rparr>\<rparr>
      = Inr JNull"
    by (simp add: getCredential_def getCredential_try_def js_get_def object_prototype_keys_def)
  show ?thesis
    unfolding Let_def c_def [symmetric] jtext_def [symmetric] pl_def [symmetric]
      iv_def [symmetric] D0_def [symmetric] V0_def [symmetric]
    using save get by (simp add: D0_def)
qed

text \<open>
  C5. The record of the specification, with id \<^verbatim>\<open>a\<close>, value \<^verbatim>\<open>sk-123\<close> and type
  \<^verbatim>\<open>apiKey\<close>, is saved in an initialized vault with an empty table. getAllCredentials
  then returns the whole record, value included: the local listing decrypts every
  stored payload. getCredential on the id returns the same record.
\<close>

theorem listing_returns_secret_value:
  "(let c = JObject [(''id'', JString ''a''), (''value'', JString ''sk-123''),
                     (''type'', JString ''apiKey'')];
        pl = demo_platform [(c, ''{id:a,value:sk-123,type:apiKey}'')];
        V0 = \<lparr>encryptionKey = Some 7, initialized = True,
              vaultData = Some \<lparr>version = ''1.0'', credentials = [], lastUpdated = 0, salt = None\<rparr>\<rparr>;
        V1 = snd (saveCredential_try pl 1 [0,0,0,0,0,0,0,0,0,0,0,0] c V0)
    in saveCredential pl 1 [0,0,0,0,0,0,0,0,0,0,0,0] c V0 = Inr (True, V1)
       \<and> getAllCredentials pl V1 = Inr [c]
       \<and> js_member c ''value'' = Some (JString ''sk-123'')
       \<and> getCredential pl ''a'' V1 = Inr c)"
proof -
  define c where "c = JObject [(''id'', JString ''a''), (''value'', JString ''sk-123''),
                     (''type'', JString ''apiKey'')]"
  define jtext where "jtext = ''{id:a,value:sk-123,type:apiKey}''"
  define pl where "pl = (demo_platform [(c, jtext)] :: byte platform)"
  define V0 where
    "V0 = (\<lparr>encryptionKey = Some 7, initialized = True,
              vaultData = Some \<lparr>version = ''1.0'', credentials = [], lastUpdated = 0, salt = None\<rparr>\<rparr>
           :: byte credential_vault)"
  define iv where "iv = ([0,0,0,0,0,0,0,0,0,0,0,0] :: byte list)"
  have r0: "ready V0" by (simp add: ready_def V0_def)
  have k0: "vault_keys V0 = []" by (simp add: vault_keys_def V0_def)
  have ivl: "length iv = 12" by (simp add: iv_def)
  have jf: "json_faithful pl c" unfolding pl_def by (rule demo_json_faithful) simp_all
  have key: "key_of c = ''a''" by (simp add: key_of_def c_def)
  have st: "storable c" by (simp add: storable_def key_of_def c_def)
  from save_step [OF r0 _ _ ivl jf st, of 1] demo_aead_correct demo_encrypt_total
  obtain V' where s: "saveCredential pl 1 iv c V0 = Inr (True, V')" and r: "ready V'"
    and g: "getCredential_try pl (key_of c) V' = c"
    and ks: "vault_keys V' = [key_of c]"
    unfolding pl_def k0 by auto
  have V': "snd (saveCredential_try pl 1 iv c V0) = V'"
    using s by (simp add: saveCredential_def V0_def)
  have tr: "js_truthy c" by (simp add: c_def)
  have all: "getAllCredentials pl V' = Inr [c]"
    by (simp add: getAllCredentials_ready [OF r] ks g tr)
  have one: "getCredential pl ''a'' V' = Inr c"
    using g by (simp add: getCredential_ready [OF r] key)
  have val: "js_member c ''value'' = Some (JString ''sk-123'')" by (simp add: c_def)
  show ?thesis
    unfolding Let_def c_def [symmetric] jtext_def [symmetric] pl_def [symmetric]
      iv_def [symmetric] V0_def [symmetric] V'
    using s all one val by simp
qed

























section \<open>Properties of the OAuth coordinator\<close>

lemma length_to_hex: "length (to_hex bs) = 2 * length bs"
  by (induction bs) (simp_all add: to_hex_def byte_hex_def)

lemma prototype_keys_short: "k \<in> set object_prototype_keys \<Longrightarrow> length k < 32"
  by (auto simp: object_prototype_keys_def)

lemma generated_id_not_inherited:
  "length rnd = 16 \<Longrightarrow> generate_session_id rnd \<notin> set object_prototype_keys"
  using prototype_keys_short [of "generate_session_id rnd"]
  by (auto simp: generate_session_id_def length_to_hex)

lemma generated_id_length: "length rnd = 16 \<Longrightarrow> length (generate_session_id rnd) = 32"
  by (simp add: generate_session_id_def length_to_hex)

text \<open>An identifier made by the flow names nothing once its session is deleted.\<close>

lemma lookup_own: "map_of (activeSessions st) k = Some s \<Longrightarrow> lookup st k = Session s"
  by (simp add: lookup_def)

lemma lookup_generated_deleted:
  assumes "length rnd = 16"
  shows "lookup (st\<lparr>activeSessions := js_delete S (generate_session_id rnd)\<rparr>)
           (generate_session_id rnd) = Missing"
proof -
  let ?sid = "generate_session_id rnd"
  have len: "length ?sid = 32" using assms by (rule generated_id_length)
  have a: "?sid \<notin> set object_prototype_keys" using assms by (rule generated_id_not_inherited)
  have b: "?sid \<noteq> ''__proto__''" "?sid \<noteq> ''result''" "?sid \<noteq> ''completed''"
    using len by auto
  show ?thesis using a b by (simp add: lookup_def js_delete_def delete_conv')
qed

lemma poll_completed_session:
  assumes "map_of (activeSessions st) sid = Some s" and "completed s" and "\<not> now > expiresAt s"
  shows "check_oauth_result now sid st =
    (completed_response (read_result (builtins st) (Session s)),
     st\<lparr>activeSessions := js_delete (activeSessions st) sid\<rparr>)"
  using assms by (simp add: check_oauth_result_def lookup_own)

text \<open>What the callback handler does to a session of the table that is not expired.\<close>

lemma callback_live_session:
  assumes "q_state q = Some sid" and "sid \<noteq> []"
    and "map_of (activeSessions st) sid = Some s" and "\<not> now > expiresAt s"
  shows "oauth_callback now q st =
    (success_page q,
     st\<lparr>activeSessions :=
          js_set (activeSessions st) sid
            (s\<lparr>result := record_result q (result s), completed := True\<rparr>)\<rparr>)"
  using assms by (simp add: oauth_callback_def lookup_own)

text \<open>What the callback handler does when the state names a built-in object.\<close>

lemma callback_builtin:
  assumes "q_state q = Some sid" and "sid \<noteq> []" and "lookup st sid = X"
    and "X = ObjectPrototype \<or> X = PrototypeResult \<or> (\<exists>f. X = InheritedFunction f)"
  shows "oauth_callback now q st = (success_page q, st\<lparr>builtins := write_builtin q X (builtins st)\<rparr>)"
  using assms by (auto simp: oauth_callback_def)

text \<open>
  C7. A session created by the flow (its identifier is the hexadecimal text of 16 drawn
  bytes) is in the table, completed and not expired, and the built-in objects are in
  any state. When the session holds a captured error, the first poll answers with that
  error; when it holds a captured code and no error, the first poll answers completed
  with that code. In both cases, and also when nothing was captured, the poll deletes
  the session and leaves every other session as it was, and every later poll with the
  same identifier, at any time, answers that the session is not found and changes
  nothing. The last part ties the captured value to the callback: after a callback
  with a code (or an error) for a live session, the poll returns that code (that
  error).
\<close>

theorem poll_single_consumption:
  assumes "length rnd = 16" and "sid = generate_session_id rnd"
    and "map_of (activeSessions st) sid = Some s" and "completed s" and "\<not> now > expiresAt s"
  shows "(\<forall>r e. result s = Some r \<and> error r = Some e \<and> e \<noteq> []
            \<longrightarrow> fst (check_oauth_result now sid st) = FailedWith e)
    \<and> (\<forall>r. result s = Some r \<and> \<not> truthy (error r)
            \<longrightarrow> fst (check_oauth_result now sid st) = CompletedWith (code r))
    \<and> snd (check_oauth_result now sid st)
        = st\<lparr>activeSessions := js_delete (activeSessions st) sid\<rparr>
    \<and> map_of (js_delete (activeSessions st) sid) sid = None
    \<and> (\<forall>k. k \<noteq> sid
            \<longrightarrow> map_of (js_delete (activeSessions st) sid) k = map_of (activeSessions st) k)
    \<and> (\<forall>now'. check_oauth_result now' sid (st\<lparr>activeSessions := js_delete (activeSessions st) sid\<rparr>)
          = (SessionNotFound, st\<lparr>activeSessions := js_delete (activeSessions st) sid\<rparr>))
    \<and> (\<forall>q t st0 s0 c. st = snd (oauth_callback t q st0) \<and> q_state q = Some sid
            \<and> map_of (activeSessions st0) sid = Some s0 \<and> \<not> t > expiresAt s0
            \<and> q_code q = Some c \<and> c \<noteq> [] \<and> \<not> truthy (q_error q)
            \<longrightarrow> fst (check_oauth_result now sid st) = CompletedWith (Some c))
    \<and> (\<forall>q t st0 s0 e. st = snd (oauth_callback t q st0) \<and> q_state q = Some sid
            \<and> map_of (activeSessions st0) sid = Some s0 \<and> \<not> t > expiresAt s0
            \<and> q_error q = Some e \<and> e \<noteq> []
            \<longrightarrow> fst (check_oauth_result now sid st) = FailedWith e)"
proof -
  let ?st' = "st\<lparr>activeSessions := js_delete (activeSessions st) sid\<rparr>"
  note poll = poll_completed_session [OF assms(3,4,5)]
  have ne: "sid \<noteq> []" using generated_id_length [OF assms(1)] assms(2) by auto
  have err: "\<forall>r e. result s = Some r \<and> error r = Some e \<and> e \<noteq> []
            \<longrightarrow> fst (check_oauth_result now sid st) = FailedWith e"
    by (simp add: poll read_result_def completed_response_def)
  have cod: "\<forall>r. result s = Some r \<and> \<not> truthy (error r)
            \<longrightarrow> fst (check_oauth_result now sid st) = CompletedWith (code r)"
    by (simp add: poll read_result_def completed_response_def)
  have del: "snd (check_oauth_result now sid st) = ?st'"
    by (simp add: poll)
  have gone: "map_of (js_delete (activeSessions st) sid) sid = None"
    by (simp add: js_delete_def delete_conv')
  have others: "\<forall>k. k \<noteq> sid
            \<longrightarrow> map_of (js_delete (activeSessions st) sid) k = map_of (activeSessions st) k"
    by (simp add: js_delete_def delete_conv')
  have "lookup ?st' sid = Missing"
    unfolding assms(2) using assms(1) by (rule lookup_generated_deleted)
  then have later: "\<forall>now'. check_oauth_result now' sid ?st' = (SessionNotFound, ?st')"
    by (simp add: check_oauth_result_def)
  have viacode: "\<forall>q t st0 s0 c. st = snd (oauth_callback t q st0) \<and> q_state q = Some sid
            \<and> map_of (activeSessions st0) sid = Some s0 \<and> \<not> t > expiresAt s0
            \<and> q_code q = Some c \<and> c \<noteq> [] \<and> \<not> truthy (q_error q)
            \<longrightarrow> fst (check_oauth_result now sid st) = CompletedWith (Some c)"
  proof (intro allI impI)
    fix q t st0 s0 c
    assume h: "st = snd (oauth_callback t q st0) \<and> q_state q = Some sid
            \<and> map_of (activeSessions st0) sid = Some s0 \<and> \<not> t > expiresAt s0
            \<and> q_code q = Some c \<and> c \<noteq> [] \<and> \<not> truthy (q_error q)"
    then have cb: "oauth_callback t q st0 =
        (success_page q,
         st0\<lparr>activeSessions :=
              js_set (activeSessions st0) sid
                (s0\<lparr>result := record_result q (result s0), completed := True\<rparr>)\<rparr>)"
      using callback_live_session [of q sid st0 s0 t] ne by simp
    from h have rr: "record_result q (result s0) = Some (code_result c)"
      by (simp add: record_result_def)
    from cb h have "map_of (activeSessions st) sid
        = Some (s0\<lparr>result := record_result q (result s0), completed := True\<rparr>)"
      by (simp add: js_set_def update_conv')
    with assms(3) have "s = s0\<lparr>result := record_result q (result s0), completed := True\<rparr>"
      by simp
    then have "result s = Some (code_result c)" by (simp add: rr)
    with cod show "fst (check_oauth_result now sid st) = CompletedWith (Some c)"
      by (simp add: code_result_def)
  qed
  have viaerror: "\<forall>q t st0 s0 e. st = snd (oauth_callback t q st0) \<and> q_state q = Some sid
            \<and> map_of (activeSessions st0) sid = Some s0 \<and> \<not> t > expiresAt s0
            \<and> q_error q = Some e \<and> e \<noteq> []
            \<longrightarrow> fst (check_oauth_result now sid st) = FailedWith e"
  proof (intro allI impI)
    fix q t st0 s0 e
    assume h: "st = snd (oauth_callback t q st0) \<and> q_state q = Some sid
            \<and> map_of (activeSessions st0) sid = Some s0 \<and> \<not> t > expiresAt s0
            \<and> q_error q = Some e \<and> e \<noteq> []"
    then have cb: "oauth_callback t q st0 =
        (success_page q,
         st0\<lparr>activeSessions :=
              js_set (activeSessions st0) sid
                (s0\<lparr>result := record_result q (result s0), completed := True\<rparr>)\<rparr>)"
      using callback_live_session [of q sid st0 s0 t] ne by simp
    from h have rr: "record_result q (result s0) = Some (error_result e)"
      by (simp add: record_result_def)
    from cb h have "map_of (activeSessions st) sid
        = Some (s0\<lparr>result := record_result q (result s0), completed := True\<rparr>)"
      by (simp add: js_set_def update_conv')
    with assms(3) have "s = s0\<lparr>result := record_result q (result s0), completed := True\<rparr>"
      by simp
    then have "result s = Some (error_result e)" by (simp add: rr)
    with err h show "fst (check_oauth_result now sid st) = FailedWith e"
      by (simp add: error_result_def)
  qed
  from err cod del gone others later viacode viaerror show ?thesis by (intro conjI)
qed

theorem poll_single_consumption_witness:
  "(let rnd = [0,0,0,0,0,0,0,0,0,0,0,0,0,0,0,0];
        sid = generate_session_id rnd;
        st0 = \<lparr>activeSessions = [(sid, new_session 0 sid [] [] [])], builtins = fresh_builtins\<rparr>;
        gone = \<lparr>activeSessions = [], builtins = fresh_builtins\<rparr>;
        qc = \<lparr>q_state = Some sid, q_code = Some ''abc'', q_error = None\<rparr>;
        qe = \<lparr>q_state = Some sid, q_code = None, q_error = Some ''access_denied''\<rparr>;
        sc = (new_session 0 sid [] [] [])\<lparr>result := Some (code_result ''abc''), completed := True\<rparr>;
        se = (new_session 0 sid [] [] [])
               \<lparr>result := Some (error_result ''access_denied''), completed := True\<rparr>
    in length rnd = 16
       \<and> snd (oauth_callback 5 qc st0) = st0\<lparr>activeSessions := [(sid, sc)]\<rparr>
       \<and> map_of [(sid, sc)] sid = Some sc \<and> completed sc \<and> \<not> 10 > expiresAt sc
       \<and> check_oauth_result 10 sid (snd (oauth_callback 5 qc st0))
            = (CompletedWith (Some ''abc''), gone)
       \<and> check_oauth_result 99 sid gone = (SessionNotFound, gone)
       \<and> snd (oauth_callback 5 qe st0) = st0\<lparr>activeSessions := [(sid, se)]\<rparr>
       \<and> map_of [(sid, se)] sid = Some se \<and> completed se \<and> \<not> 10 > expiresAt se
       \<and> check_oauth_result 10 sid (snd (oauth_callback 5 qe st0))
            = (FailedWith ''access_denied'', gone)
       \<and> check_oauth_result 99 sid gone = (SessionNotFound, gone))"
proof -
  define rnd :: "byte list" where "rnd = [0,0,0,0,0,0,0,0,0,0,0,0,0,0,0,0]"
  define sid where "sid = generate_session_id rnd"
  define s0 where "s0 = new_session 0 sid [] [] []"
  define st0 where "st0 = \<lparr>activeSessions = [(sid, s0)], builtins = fresh_builtins\<rparr>"
  define gone where "gone = \<lparr>activeSessions = [], builtins = fresh_builtins\<rparr>"
  define qc where "qc = \<lparr>q_state = Some sid, q_code = Some ''abc'', q_error = None\<rparr>"
  define qe where "qe = \<lparr>q_state = Some sid, q_code = None, q_error = Some ''access_denied''\<rparr>"
  define sc where "sc = s0\<lparr>result := Some (code_result ''abc''), completed := True\<rparr>"
  define se where "se = s0\<lparr>result := Some (error_result ''access_denied''), completed := True\<rparr>"
  have h1: "length rnd = 16" by (simp add: rnd_def)
  have ne: "sid \<noteq> []" using generated_id_length [OF h1] by (auto simp: sid_def)
  have own: "map_of (activeSessions st0) sid = Some s0" by (simp add: st0_def)
  have live: "\<not> 5 > expiresAt s0" by (simp add: s0_def new_session_def SESSION_TIMEOUT_def)
  have cbc: "snd (oauth_callback 5 qc st0) = st0\<lparr>activeSessions := [(sid, sc)]\<rparr>"
    using callback_live_session [of qc sid st0 s0 5, OF _ ne own live]
    by (simp add: qc_def st0_def sc_def js_set_def record_result_def)
  have cbe: "snd (oauth_callback 5 qe st0) = st0\<lparr>activeSessions := [(sid, se)]\<rparr>"
    using callback_live_session [of qe sid st0 s0 5, OF _ ne own live]
    by (simp add: qe_def st0_def se_def js_set_def record_result_def)
  have c3: "map_of (activeSessions (st0\<lparr>activeSessions := [(sid, sc)]\<rparr>)) sid = Some sc" by simp
  have c4: "completed sc" by (simp add: sc_def)
  have c5: "\<not> 10 > expiresAt sc" by (simp add: sc_def s0_def new_session_def SESSION_TIMEOUT_def)
  have e3: "map_of (activeSessions (st0\<lparr>activeSessions := [(sid, se)]\<rparr>)) sid = Some se" by simp
  have e4: "completed se" by (simp add: se_def)
  have e5: "\<not> 10 > expiresAt se" by (simp add: se_def s0_def new_session_def SESSION_TIMEOUT_def)
  have del: "st0\<lparr>activeSessions := js_delete [(sid, x)] sid\<rparr> = gone" for x
    by (simp add: st0_def gone_def js_delete_def)
  note tc = poll_single_consumption [OF h1 sid_def c3 c4 c5]
  note te = poll_single_consumption [OF h1 sid_def e3 e4 e5]
  have rc: "result sc = Some (code_result ''abc'') \<and> \<not> truthy (error (code_result ''abc''))"
    by (simp add: sc_def code_result_def)
  have re: "result se = Some (error_result ''access_denied'')
      \<and> error (error_result ''access_denied'') = Some ''access_denied'' \<and> ''access_denied'' \<noteq> []"
    by (simp add: se_def error_result_def)
  have pc1: "fst (check_oauth_result 10 sid (st0\<lparr>activeSessions := [(sid, sc)]\<rparr>))
      = CompletedWith (Some ''abc'')"
    using tc [THEN conjunct2, THEN conjunct1, rule_format, OF rc] by (simp add: code_result_def)
  have pc2: "snd (check_oauth_result 10 sid (st0\<lparr>activeSessions := [(sid, sc)]\<rparr>)) = gone"
    using tc [THEN conjunct2, THEN conjunct2, THEN conjunct1] by (simp add: del)
  have pe1: "fst (check_oauth_result 10 sid (st0\<lparr>activeSessions := [(sid, se)]\<rparr>))
      = FailedWith ''access_denied''"
    using te [THEN conjunct1, rule_format, OF re] .
  have pe2: "snd (check_oauth_result 10 sid (st0\<lparr>activeSessions := [(sid, se)]\<rparr>)) = gone"
    using te [THEN conjunct2, THEN conjunct2, THEN conjunct1] by (simp add: del)
  have later: "check_oauth_result 99 sid gone = (SessionNotFound, gone)"
    using tc [THEN conjunct2, THEN conjunct2, THEN conjunct2, THEN conjunct2, THEN conjunct2,
        THEN conjunct1, rule_format, of 99]
    by (simp add: del)
  have own_c: "map_of [(sid, sc)] sid = Some sc" and own_e: "map_of [(sid, se)] sid = Some se"
    by simp_all
  show ?thesis
    unfolding Let_def rnd_def [symmetric] sid_def [symmetric] s0_def [symmetric]
      st0_def [symmetric] gone_def [symmetric] qc_def [symmetric] qe_def [symmetric]
      sc_def [symmetric] se_def [symmetric]
    using h1 cbc own_c c4 c5 pc1 pc2 later cbe own_e e4 e5 pe1 pe2
    by (simp add: prod_eq_iff)
qed

text \<open>
  C10, the claim as stated, fails in two ways. A session \<^verbatim>\<open>5f\<close> receives a callback
  with the code \<^verbatim>\<open>abc\<close> and then, before any poll, a callback with neither code
  nor error: the second callback leaves the recorded code where it is, and the poll
  returns that code. And for a session that was completed by a callback with neither
  code nor error, a poll made after the session has expired answers that the session
  has expired.
\<close>

theorem callback_without_code_keeps_result:
  "(let sid = ''5f'';
        st0 = \<lparr>activeSessions = [(sid, new_session 0 sid [] [] [])], builtins = fresh_builtins\<rparr>;
        st1 = snd (oauth_callback 5 \<lparr>q_state = Some sid, q_code = Some ''abc'', q_error = None\<rparr> st0);
        q = \<lparr>q_state = Some sid, q_code = None, q_error = None\<rparr>;
        st2 = snd (oauth_callback 6 q st1)
    in fst (oauth_callback 6 q st1) = AuthorizationComplete
       \<and> map_option result (map_of (activeSessions st2) sid) = Some (Some (code_result ''abc''))
       \<and> fst (check_oauth_result 7 sid st2) = CompletedWith (Some ''abc'')
       \<and> fst (oauth_callback 6 q st0) = AuthorizationComplete
       \<and> fst (check_oauth_result 900001 sid (snd (oauth_callback 6 q st0))) = SessionHasExpired)"
proof -
  define sid where "sid = ''5f''"
  define s0 where "s0 = new_session 0 sid [] [] []"
  define st0 where "st0 = \<lparr>activeSessions = [(sid, s0)], builtins = fresh_builtins\<rparr>"
  define qc where "qc = \<lparr>q_state = Some sid, q_code = Some ''abc'', q_error = None\<rparr>"
  define q where "q = \<lparr>q_state = Some sid, q_code = None, q_error = None\<rparr>"
  define s1 where "s1 = s0\<lparr>result := Some (code_result ''abc''), completed := True\<rparr>"
  define s2 where "s2 = s0\<lparr>completed := True\<rparr>"
  have ne: "sid \<noteq> []" by (simp add: sid_def)
  have own0: "map_of (activeSessions st0) sid = Some s0" by (simp add: st0_def)
  have live0: "\<not> 5 > expiresAt s0" "\<not> 6 > expiresAt s0"
    by (simp_all add: s0_def new_session_def SESSION_TIMEOUT_def)
  have r0: "result s0 = None" by (simp add: s0_def new_session_def)
  have cb1: "oauth_callback 5 qc st0 = (AuthorizationComplete, st0\<lparr>activeSessions := [(sid, s1)]\<rparr>)"
    using callback_live_session [of qc sid st0 s0 5, OF _ ne own0 live0(1)]
    by (simp add: qc_def st0_def s1_def js_set_def record_result_def success_page_def)
  have own1: "map_of (activeSessions (st0\<lparr>activeSessions := [(sid, s1)]\<rparr>)) sid = Some s1" by simp
  have live1: "\<not> 6 > expiresAt s1" "\<not> 7 > expiresAt s1"
    by (simp_all add: s1_def s0_def new_session_def SESSION_TIMEOUT_def)
  have same: "s1\<lparr>result := Some (code_result ''abc''), completed := True\<rparr> = s1"
    by (simp add: s1_def)
  have cb2: "oauth_callback 6 q (st0\<lparr>activeSessions := [(sid, s1)]\<rparr>)
      = (AuthorizationComplete, st0\<lparr>activeSessions := [(sid, s1)]\<rparr>)"
    using callback_live_session [of q sid "st0\<lparr>activeSessions := [(sid, s1)]\<rparr>" s1 6,
        OF _ ne own1 live1(1)]
    by (simp add: q_def js_set_def record_result_def success_page_def s1_def)
  have poll: "check_oauth_result 7 sid (st0\<lparr>activeSessions := [(sid, s1)]\<rparr>)
      = (CompletedWith (Some ''abc''), st0\<lparr>activeSessions := []\<rparr>)"
    using poll_completed_session [OF own1 _ live1(2)]
    by (simp add: s1_def read_result_def completed_response_def code_result_def js_delete_def)
  have cb3: "oauth_callback 6 q st0 = (AuthorizationComplete, st0\<lparr>activeSessions := [(sid, s2)]\<rparr>)"
    using callback_live_session [of q sid st0 s0 6, OF _ ne own0 live0(2)] r0
    by (simp add: q_def st0_def s2_def js_set_def record_result_def success_page_def)
  have late: "fst (check_oauth_result 900001 sid (st0\<lparr>activeSessions := [(sid, s2)]\<rparr>))
      = SessionHasExpired"
    by (simp add: check_oauth_result_def lookup_def s2_def s0_def new_session_def
        SESSION_TIMEOUT_def)
  show ?thesis
    unfolding Let_def sid_def [symmetric] s0_def [symmetric] st0_def [symmetric]
      qc_def [symmetric] q_def [symmetric]
    by (simp add: cb1 cb2 poll cb3 late) (simp add: s1_def)
qed

text \<open>
  C10, amended. The callback names a session of the table that is not expired and
  holds no result yet, the request carries neither a code nor an error (absent or
  empty), and no result has been written to \<^verbatim>\<open>Object.prototype\<close>. The page is the
  confirmation page, the session is marked completed and still holds no result, and a
  poll made before the session expires answers completed with no code and deletes
  the session.
\<close>

theorem callback_without_code_or_error:
  assumes "q_state q = Some sid" and "sid \<noteq> []"
    and "map_of (activeSessions st) sid = Some s" and "\<not> now > expiresAt s"
    and "result s = None" and "w_result (object_prototype (builtins st)) = None"
    and "\<not> truthy (q_code q)" and "\<not> truthy (q_error q)"
    and "\<not> now' > expiresAt s"
  shows "oauth_callback now q st =
           (AuthorizationComplete,
            st\<lparr>activeSessions := js_set (activeSessions st) sid (s\<lparr>completed := True\<rparr>)\<rparr>)
    \<and> map_of (js_set (activeSessions st) sid (s\<lparr>completed := True\<rparr>)) sid
        = Some (s\<lparr>completed := True\<rparr>)
    \<and> result (s\<lparr>completed := True\<rparr>) = None
    \<and> check_oauth_result now' sid
          (st\<lparr>activeSessions := js_set (activeSessions st) sid (s\<lparr>completed := True\<rparr>)\<rparr>)
        = (CompletedWith None,
           st\<lparr>activeSessions :=
                js_delete (js_set (activeSessions st) sid (s\<lparr>completed := True\<rparr>)) sid\<rparr>)
    \<and> map_of (js_delete (js_set (activeSessions st) sid (s\<lparr>completed := True\<rparr>)) sid) sid = None"
proof -
  let ?s' = "s\<lparr>completed := True\<rparr>"
  let ?st' = "st\<lparr>activeSessions := js_set (activeSessions st) sid ?s'\<rparr>"
  have same: "s\<lparr>result := None\<rparr> = s"
    using assms(5) by (cases s) simp
  have cb: "oauth_callback now q st = (AuthorizationComplete, ?st')"
    using callback_live_session [OF assms(1-4)] assms(5,7,8)
    by (simp add: record_result_def success_page_def same)
  have own: "map_of (activeSessions ?st') sid = Some ?s'"
    by (simp add: js_set_def update_conv')
  have poll: "check_oauth_result now' sid ?st' =
      (CompletedWith None, ?st'\<lparr>activeSessions := js_delete (activeSessions ?st') sid\<rparr>)"
    using poll_completed_session [OF own, of now'] assms(5,6,9)
    by (simp add: read_result_def completed_response_def)
  have gone: "map_of (js_delete (js_set (activeSessions st) sid ?s') sid) sid = None"
    by (simp add: js_delete_def delete_conv')
  from cb own poll gone assms(5) show ?thesis by simp
qed

theorem callback_without_code_or_error_witness:
  "(let sid = ''5f'';
        s = new_session 0 sid [] [] [];
        st = \<lparr>activeSessions = [(sid, s)], builtins = fresh_builtins\<rparr>;
        q = \<lparr>q_state = Some sid, q_code = None, q_error = None\<rparr>
    in q_state q = Some sid \<and> sid \<noteq> [] \<and> map_of (activeSessions st) sid = Some s
       \<and> \<not> 5 > expiresAt s \<and> result s = None
       \<and> w_result (object_prototype (builtins st)) = None
       \<and> \<not> truthy (q_code q) \<and> \<not> truthy (q_error q) \<and> \<not> 7 > expiresAt s
       \<and> fst (oauth_callback 5 q st) = AuthorizationComplete
       \<and> check_oauth_result 7 sid (snd (oauth_callback 5 q st))
           = (CompletedWith None, \<lparr>activeSessions = [], builtins = fresh_builtins\<rparr>))"
proof -
  define sid where "sid = ''5f''"
  define s where "s = new_session 0 sid [] [] []"
  define st where "st = \<lparr>activeSessions = [(sid, s)], builtins = fresh_builtins\<rparr>"
  define q where "q = \<lparr>q_state = Some sid, q_code = None, q_error = None\<rparr>"
  have h1: "q_state q = Some sid" and h7: "\<not> truthy (q_code q)" and h8: "\<not> truthy (q_error q)"
    by (simp_all add: q_def)
  have h2: "sid \<noteq> []" by (simp add: sid_def)
  have h3: "map_of (activeSessions st) sid = Some s" by (simp add: st_def)
  have h4: "\<not> 5 > expiresAt s" and h9: "\<not> 7 > expiresAt s"
    by (simp_all add: s_def new_session_def SESSION_TIMEOUT_def)
  have h5: "result s = None" by (simp add: s_def new_session_def)
  have h6: "w_result (object_prototype (builtins st)) = None"
    by (simp add: st_def fresh_builtins_def nothing_written_def)
  have del: "st\<lparr>activeSessions := js_delete (js_set (activeSessions st) sid (s\<lparr>completed := True\<rparr>)) sid\<rparr>
      = \<lparr>activeSessions = [], builtins = fresh_builtins\<rparr>"
    by (simp add: st_def js_delete_def js_set_def)
  from callback_without_code_or_error [OF h1 h2 h3 h4 h5 h6 h7 h8 h9] h1 h2 h3 h4 h5 h6 h7 h8 h9
  show ?thesis
    unfolding Let_def sid_def [symmetric] s_def [symmetric] st_def [symmetric] q_def [symmetric]
    by (simp add: del)
qed

text \<open>
  A state that names nothing (neither a key of the table nor an inherited member) is
  rejected with the 400 page and nothing is touched; a state that names an expired
  session is rejected as well, and only that session is removed.
\<close>

lemma callback_unknown_state:
  assumes "q_state q = Some sid" and "lookup st sid = Missing"
  shows "oauth_callback now q st = (InvalidCallback400, st)"
  using assms by (simp add: oauth_callback_def)

lemma callback_expired_state:
  assumes "q_state q = Some sid" and "sid \<noteq> []"
    and "map_of (activeSessions st) sid = Some s" and "now > expiresAt s"
  shows "fst (oauth_callback now q st) = SessionExpired400"
    and "builtins (snd (oauth_callback now q st)) = builtins st"
    and "k \<noteq> sid \<Longrightarrow> map_of (activeSessions (snd (oauth_callback now q st))) k
           = map_of (activeSessions st) k"
  using assms by (simp_all add: oauth_callback_def lookup_own js_delete_def delete_conv')

text \<open>
  C8. A live session exists, no built-in object has been written to, and a callback
  arrives whose \<^verbatim>\<open>state\<close> is \<^verbatim>\<open>constructor\<close>, which names no session. The guard
  \<^verbatim>\<open>!activeSessions[sessionId]\<close> finds the inherited member and lets the request
  through: the answer is the confirmation page, and the code and the completed flag
  are written to the built-in object. The session table itself is left as it was.
\<close>

theorem callback_inherited_state:
  "oauth_callback 5 \<lparr>q_state = Some ''constructor'', q_code = Some ''x'', q_error = None\<rparr>
       \<lparr>activeSessions = [(''5f'', new_session 0 ''5f'' [] [] [])], builtins = fresh_builtins\<rparr>
     = (AuthorizationComplete,
        \<lparr>activeSessions = [(''5f'', new_session 0 ''5f'' [] [] [])],
         builtins = fresh_builtins
           \<lparr>inherited_functions :=
              [(''constructor'', \<lparr>w_result = Some (code_result ''x''), w_completed = True\<rparr>)]\<rparr>\<rparr>)"
  by (simp add: oauth_callback_def lookup_def object_prototype_keys_def record_result_def
      success_page_def write_builtin_def write_props_def function_props_def fresh_builtins_def
      nothing_written_def)

text \<open>
  What the written properties do afterwards. A callback with the state
  \<^verbatim>\<open>__proto__\<close> and a code puts the code on \<^verbatim>\<open>Object.prototype\<close>; a session that
  is then completed by a callback with neither code nor error answers the poll with
  that code, which it never received.
\<close>

lemma inherited_result_is_polled:
  "(let sid = ''5f'';
        st0 = \<lparr>activeSessions = [(sid, new_session 0 sid [] [] [])], builtins = fresh_builtins\<rparr>;
        st1 = snd (oauth_callback 5 \<lparr>q_state = Some ''__proto__'', q_code = Some ''x'', q_error = None\<rparr> st0);
        st2 = snd (oauth_callback 6 \<lparr>q_state = Some sid, q_code = None, q_error = None\<rparr> st1)
    in activeSessions st1 = activeSessions st0
       \<and> w_result (object_prototype (builtins st1)) = Some (code_result ''x'')
       \<and> map_option result (map_of (activeSessions st2) sid) = Some None
       \<and> fst (check_oauth_result 7 sid st2) = CompletedWith (Some ''x''))"
proof -
  define sid where "sid = ''5f''"
  define s0 where "s0 = new_session 0 sid [] [] []"
  define st0 where "st0 = \<lparr>activeSessions = [(sid, s0)], builtins = fresh_builtins\<rparr>"
  define B1 where "B1 = fresh_builtins
    \<lparr>object_prototype := \<lparr>w_result = Some (code_result ''x''), w_completed = True\<rparr>\<rparr>"
  define q where "q = \<lparr>q_state = Some sid, q_code = None, q_error = None\<rparr>"
  define s2 where "s2 = s0\<lparr>completed := True\<rparr>"
  have ne: "sid \<noteq> []" by (simp add: sid_def)
  have r0: "result s0 = None" by (simp add: s0_def new_session_def)
  have live: "\<not> 6 > expiresAt s0" "\<not> 7 > expiresAt s2"
    by (simp_all add: s2_def s0_def new_session_def SESSION_TIMEOUT_def)
  have look: "lookup st0 ''__proto__'' = ObjectPrototype"
    by (simp add: lookup_def st0_def sid_def)
  have wr: "write_builtin \<lparr>q_state = Some ''__proto__'', q_code = Some ''x'', q_error = None\<rparr>
      ObjectPrototype (builtins st0) = B1"
    by (simp add: write_builtin_def write_props_def record_result_def B1_def st0_def
        fresh_builtins_def nothing_written_def)
  have cb1: "oauth_callback 5 \<lparr>q_state = Some ''__proto__'', q_code = Some ''x'', q_error = None\<rparr> st0
      = (AuthorizationComplete, st0\<lparr>builtins := B1\<rparr>)"
    using callback_builtin [of "\<lparr>q_state = Some ''__proto__'', q_code = Some ''x'', q_error = None\<rparr>"
        "''__proto__''" st0 ObjectPrototype 5, OF _ _ look]
    by (simp add: wr success_page_def)
  have own1: "map_of (activeSessions (st0\<lparr>builtins := B1\<rparr>)) sid = Some s0" by (simp add: st0_def)
  have cb2: "oauth_callback 6 q (st0\<lparr>builtins := B1\<rparr>)
      = (AuthorizationComplete, st0\<lparr>builtins := B1, activeSessions := [(sid, s2)]\<rparr>)"
    using callback_live_session [of q sid "st0\<lparr>builtins := B1\<rparr>" s0 6, OF _ ne own1 live(1)] r0
    by (simp add: q_def st0_def s2_def js_set_def record_result_def success_page_def)
  have own2: "map_of (activeSessions (st0\<lparr>builtins := B1, activeSessions := [(sid, s2)]\<rparr>)) sid
      = Some s2" by simp
  have poll: "fst (check_oauth_result 7 sid (st0\<lparr>builtins := B1, activeSessions := [(sid, s2)]\<rparr>))
      = CompletedWith (Some ''x'')"
    using poll_completed_session [OF own2 _ live(2)] r0
    by (simp add: s2_def read_result_def completed_response_def code_result_def B1_def)
  show ?thesis
    unfolding Let_def sid_def [symmetric] s0_def [symmetric] st0_def [symmetric] q_def [symmetric]
    by (simp add: cb1 cb2 poll) (simp add: B1_def s2_def r0 st0_def)
qed

section \<open>Properties of the job scheduler\<close>

text \<open>
  Every path that removes a job closes the context the job holds: the sweep, the poll
  that finds the job expired, and the purge timer.
\<close>

lemma sweep_jobs_subset: "set (sweep_jobs now js cs) \<subseteq> set cs"
proof (induction js arbitrary: cs)
  case Nil
  then show ?case by simp
next
  case (Cons p js)
  obtain k j where p: "p = (k, j)" by (cases p)
  have "set (close_context j cs) \<subseteq> set cs" by (auto simp: close_context_def split: option.splits)
  with Cons [of cs] Cons [of "close_context j cs"] show ?case by (auto simp: p)
qed

lemma sweep_jobs_closes:
  assumes "(k, j) \<in> set js" and "now > job_expiresAt j" and "context j = Some c"
  shows "c \<notin> set (sweep_jobs now js cs)"
  using assms
proof (induction js arbitrary: cs)
  case Nil
  then show ?case by simp
next
  case (Cons p js)
  show ?case
  proof (cases "p = (k, j)")
    case True
    have "c \<notin> set (close_context j cs)" using Cons.prems(3) by (simp add: close_context_def)
    with sweep_jobs_subset [of now js "close_context j cs"] show ?thesis
      using Cons.prems(2) by (auto simp: True)
  next
    case False
    with Cons.prems have "(k, j) \<in> set js" by simp
    from Cons.IH [OF this Cons.prems(2,3)] show ?thesis by (cases p) simp
  qed
qed

lemma cleanup_closes_expired:
  assumes "(k, j) \<in> set (activeJobs st)" and "now > job_expiresAt j" and "context j = Some c"
  shows "c \<notin> set (open_contexts (cleanupExpiredJobs now st))"
    and "(k, j) \<notin> set (activeJobs (cleanupExpiredJobs now st))"
  using assms sweep_jobs_closes [OF assms] by (simp_all add: cleanupExpiredJobs_def)

lemma expired_poll_closes:
  assumes "js_get (activeJobs st) k = Own j" and "now > job_expiresAt j" and "context j = Some c"
  shows "c \<notin> set (open_contexts (fst (snd (check_automation_status now k st))))"
  using assms by (simp add: check_automation_status_def close_context_def)

lemma purge_timer_closes:
  assumes "context j = Some c"
  shows "c \<notin> set (open_contexts (purge_timer k j st))"
  using assms by (simp add: purge_timer_def close_context_def)

lemma to_hex_example: "to_hex [1,2,3,4,5,6,7,8] = ''0102030405060708''"
  by (simp add: to_hex_def byte_hex_def hex_digit_def)

text \<open>
  C9. A job is submitted at time 0 with identifier \<^verbatim>\<open>0102030405060708\<close>. The sweep
  runs after the deadline of five minutes, while the task is still waiting for the
  browser: the job has no context yet and is deleted. Then the browser returns
  context 7. The context is open, no job holds it, and a later sweep changes nothing:
  it stays open.
\<close>

theorem context_leaked_after_early_expiry:
  "(let st0 = \<lparr>activeJobs = [], open_contexts = []\<rparr>;
        st1 = snd (run_automation 0 [1,2,3,4,5,6,7,8] st0);
        st2 = cleanupExpiredJobs 300001 st1;
        st3 = task_context_created ''0102030405060708'' 7 st2
    in fst (run_automation 0 [1,2,3,4,5,6,7,8] st0) = Some ''0102030405060708''
       \<and> st3 = \<lparr>activeJobs = [], open_contexts = [7]\<rparr>
       \<and> leaked_contexts st3 = [7]
       \<and> cleanupExpiredJobs 900000 st3 = st3)"
proof -
  define jid where "jid = ''0102030405060708''"
  define st0 where "st0 = \<lparr>activeJobs = [], open_contexts = []\<rparr>"
  define j0 where "j0 = \<lparr>job_id = jid, status = running, job_result = None, job_error = None,
     job_createdAt = 0, job_expiresAt = 300000, context = None\<rparr>"
  have sub: "run_automation 0 [1,2,3,4,5,6,7,8] st0
      = (Some jid, \<lparr>activeJobs = [(jid, j0)], open_contexts = []\<rparr>)"
    unfolding run_automation_def to_hex_example jid_def [symmetric]
    by (simp add: st0_def j0_def MAX_CONCURRENT_JOBS_def js_set_def JOB_TIMEOUT_def Let_def)
  have sweep: "cleanupExpiredJobs 300001 \<lparr>activeJobs = [(jid, j0)], open_contexts = []\<rparr> = st0"
    by (simp add: cleanupExpiredJobs_def j0_def st0_def close_context_def)
  have missing: "js_get [] jid = (Undefined :: automation_job property)"
    by (simp add: js_get_def object_prototype_keys_def jid_def)
  have created: "task_context_created jid 7 st0 = \<lparr>activeJobs = [], open_contexts = [7]\<rparr>"
    using missing by (simp add: task_context_created_def st0_def)
  have leak: "leaked_contexts \<lparr>activeJobs = [], open_contexts = [7]\<rparr> = [7]"
    by (simp add: leaked_contexts_def held_contexts_def)
  have later: "cleanupExpiredJobs 900000 \<lparr>activeJobs = [], open_contexts = [7]\<rparr>
      = \<lparr>activeJobs = [], open_contexts = [7]\<rparr>"
    by (simp add: cleanupExpiredJobs_def)
  show ?thesis
    unfolding Let_def st0_def [symmetric] jid_def [symmetric]
    by (simp add: sub sweep created leak later)
qed

end
